theory Spec2Isabelle
  imports Main "HOL-Library.Word"
begin

section \<open>The process monitor: data model\<close>

text \<open>
  The monitor of package \<open>monitor\<close> (a wrapper to netlink process events) is embedded
  here: its callback registry, its bounded queue of pending callbacks and the callback
  runners that drain it, its main event loop, and its reference-counted life cycle.

  A process id is Go's \<open>uint32\<close>. A registered callback is identified by the address
  \<open>&callback\<close> of the closure variable of one \<open>Subscribe\<close> call, the key type
  \<open>*ProcessCallback\<close> of the two callback maps.
\<close>

type_synonym pid = "32 word"

type_synonym callback_addr = nat

text \<open>
  A task sent over \<open>callbackRunner\<close> is the closure
  \<open>func() { (*temporaryCallback)(pid) }\<close>: the callback and the pid it captured.
  The channel's element type \<open>func()\<close> also has the value \<open>nil\<close>, which is \<open>None\<close> here.
\<close>

type_synonym task = "(callback_addr \<times> pid) option"

text \<open>A channel of \<open>struct{}\<close> that is only ever closed or left open, or is \<open>nil\<close>.\<close>

datatype signal_chan = NilChan | OpenChan | ClosedChan

text \<open>
  The counters of \<open>processMonitorTelemetry\<close>. The counter type belongs to the telemetry
  package; the monitor only calls \<open>Add(1)\<close> on it, so a counter is a natural number here.
\<close>

record processMonitorTelemetry =
  events :: nat
  exec :: nat
  exit :: nat
  restart :: nat
  reinitFailed :: nat
  processScanFailed :: nat
  callbackExecuted :: nat
  processExecChannelIsFull :: nat
  processExitChannelIsFull :: nat

text \<open>
  Where a callback runner goroutine of \<open>initCallbackRunner\<close> stands: at its first
  (non-blocking) \<open>select\<close>, at its second (blocking) \<open>select\<close>, holding a task it has
  received and not yet called, or returned.
\<close>

datatype runner = AtStopCheck | AtSelect | Calling task | Returned

text \<open>
  Where the goroutine of \<open>mainEventLoop\<close> stands: not running (never started, or
  returned), at the \<open>select\<close> of its loop, or inside its deferred function, waiting in
  \<open>stopCallbackRunners\<close> for the callback runners.
\<close>

datatype main_loop = LoopNotRunning | LoopSelect | LoopWaitRunners

text \<open>
  What the monitor does to the outside, in order: the calls of \<open>log.Info\<close>, of
  \<open>netlink.ProcEventMonitor\<close> and of \<open>kernel.WithAllProcs\<close>, the send on
  \<open>netlinkDoneChannel\<close>, \<open>time.Sleep\<close> (in milliseconds) and the goroutines started.
\<close>

datatype effect =
    LogInfo string
  | ProcEventMonitor
  | WithAllProcs
  | SendNetlinkDone
  | Sleep nat
  | GoMainEventLoop
  | GoCallbackRunner nat

text \<open>
  The struct \<open>ProcessMonitor\<close>. \<open>initOnce\<close> is true once \<open>initOnce.Do\<close> has run its
  function; the two wait groups are their counters; \<open>refcount\<close> is the 32-bit
  \<open>atomic.Int32\<close>, read as signed by \<open>sint\<close>; the field \<open>done\<close> is \<open>done_chan\<close>. A
  callback map \<open>map[*ProcessCallback]struct{}\<close> is the list of its keys, without
  repetition; \<open>range\<close> visits the keys in the order of the list (Go leaves the order
  open, and the list of a state is arbitrary). \<open>callbackRunner\<close> is \<open>None\<close> while the
  channel is \<open>nil\<close>, and otherwise the tasks buffered in it, oldest first.

  The last four fields are not fields of the struct: the goroutines the monitor has
  started, the callbacks called so far (each with its pid, in the order of the calls),
  and the effects on the outside.
\<close>

record ProcessMonitor =
  initOnce :: bool
  processMonitorWG :: int
  callbackRunnersWG :: int
  refcount :: "32 word"
  done_chan :: signal_chan
  netlinkDoneChannel :: signal_chan
  useEventStream :: bool
  hasExecCallbacks :: bool
  processExecCallbacks :: "callback_addr list"
  hasExitCallbacks :: bool
  processExitCallbacks :: "callback_addr list"
  callbackRunnerStopChannel :: signal_chan
  callbackRunner :: "task list option"
  tel :: processMonitorTelemetry
  runners :: "runner list"
  mainLoop :: main_loop
  called :: "(callback_addr \<times> pid) list"
  effects :: "effect list"

definition processMonitorEventQueueSize :: nat where
  "processMonitorEventQueueSize = 2048"

definition pendingCallbacksQueueSize :: nat where
  "pendingCallbacksQueueSize = 5000"

text \<open>
  The package variable \<open>processMonitor\<close> as the program starts: empty callback maps,
  every other field the zero value of its type.
\<close>

definition zeroTelemetry :: processMonitorTelemetry where
  "zeroTelemetry = \<lparr>events = 0, exec = 0, exit = 0, restart = 0, reinitFailed = 0,
     processScanFailed = 0, callbackExecuted = 0, processExecChannelIsFull = 0,
     processExitChannelIsFull = 0\<rparr>"

definition processMonitor :: ProcessMonitor where
  "processMonitor = \<lparr>initOnce = False, processMonitorWG = 0, callbackRunnersWG = 0,
     refcount = 0, done_chan = NilChan, netlinkDoneChannel = NilChan,
     useEventStream = False, hasExecCallbacks = False, processExecCallbacks = [],
     hasExitCallbacks = False, processExitCallbacks = [],
     callbackRunnerStopChannel = NilChan, callbackRunner = None, tel = zeroTelemetry,
     runners = [], mainLoop = LoopNotRunning, called = [], effects = []\<rparr>"

section \<open>Reference counting\<close>

text \<open>\<open>GetProcessMonitor\<close>: \<open>processMonitor.refcount.Inc()\<close>; the sum wraps at 32 bits.\<close>

definition GetProcessMonitor :: "ProcessMonitor \<Rightarrow> ProcessMonitor" where
  "GetProcessMonitor pm = pm\<lparr>refcount := refcount pm + 1\<rparr>"

section \<open>The callback registry\<close>

text \<open>
  \<open>m[k] = struct{}{}\<close> and \<open>delete(m, k)\<close> on the list of keys of a map.
\<close>

definition map_store :: "callback_addr \<Rightarrow> callback_addr list \<Rightarrow> callback_addr list" where
  "map_store k m = (if k \<in> set m then m else m @ [k])"

definition map_delete :: "callback_addr \<Rightarrow> callback_addr list \<Rightarrow> callback_addr list" where
  "map_delete k m = removeAll k m"

text \<open>
  The closure \<open>SubscribeExec\<close> returns: it deletes the key and stores
  \<open>len(pm.processExecCallbacks) > 0\<close> in the flag. It reads the map through \<open>pm\<close>
  when it is called.
\<close>

definition unsubscribeExec :: "callback_addr \<Rightarrow> ProcessMonitor \<Rightarrow> ProcessMonitor" where
  "unsubscribeExec callback pm =
     (let m = map_delete callback (processExecCallbacks pm)
      in pm\<lparr>processExecCallbacks := m, hasExecCallbacks := (0 < length m)\<rparr>)"

definition unsubscribeExit :: "callback_addr \<Rightarrow> ProcessMonitor \<Rightarrow> ProcessMonitor" where
  "unsubscribeExit callback pm =
     (let m = map_delete callback (processExitCallbacks pm)
      in pm\<lparr>processExitCallbacks := m, hasExitCallbacks := (0 < length m)\<rparr>)"

text \<open>
  \<open>SubscribeExec\<close> and \<open>SubscribeExit\<close>; the argument is the address \<open>&callback\<close> of
  this call's closure variable. The result is the new monitor and the unsubscribe
  function.
\<close>

definition SubscribeExec ::
  "callback_addr \<Rightarrow> ProcessMonitor \<Rightarrow> ProcessMonitor \<times> (ProcessMonitor \<Rightarrow> ProcessMonitor)" where
  "SubscribeExec callback pm =
     (pm\<lparr>hasExecCallbacks := True,
         processExecCallbacks := map_store callback (processExecCallbacks pm)\<rparr>,
      unsubscribeExec callback)"

definition SubscribeExit ::
  "callback_addr \<Rightarrow> ProcessMonitor \<Rightarrow> ProcessMonitor \<times> (ProcessMonitor \<Rightarrow> ProcessMonitor)" where
  "SubscribeExit callback pm =
     (pm\<lparr>hasExitCallbacks := True,
         processExitCallbacks := map_store callback (processExitCallbacks pm)\<rparr>,
      unsubscribeExit callback)"

section \<open>Handing events to the callback runners\<close>

text \<open>
  The \<open>select\<close> of \<open>handleProcessExec\<close> for one callback: the send goes through when
  the channel has room; otherwise (the buffer is full, or the channel is \<open>nil\<close>) the
  \<open>default\<close> case counts the task as not sent. The debug line of the \<open>default\<close> case
  is not modelled.
\<close>

definition sendExecTask :: "pid \<Rightarrow> ProcessMonitor \<Rightarrow> callback_addr \<Rightarrow> ProcessMonitor" where
  "sendExecTask p pm callback =
     (case callbackRunner pm of
        Some q \<Rightarrow>
          if length q < pendingCallbacksQueueSize
          then pm\<lparr>callbackRunner := Some (q @ [Some (callback, p)])\<rparr>
          else pm\<lparr>tel := (tel pm)\<lparr>processExecChannelIsFull :=
                  processExecChannelIsFull (tel pm) + 1\<rparr>\<rparr>
      | None \<Rightarrow>
          pm\<lparr>tel := (tel pm)\<lparr>processExecChannelIsFull :=
                  processExecChannelIsFull (tel pm) + 1\<rparr>\<rparr>)"

definition sendExitTask :: "pid \<Rightarrow> ProcessMonitor \<Rightarrow> callback_addr \<Rightarrow> ProcessMonitor" where
  "sendExitTask p pm callback =
     (case callbackRunner pm of
        Some q \<Rightarrow>
          if length q < pendingCallbacksQueueSize
          then pm\<lparr>callbackRunner := Some (q @ [Some (callback, p)])\<rparr>
          else pm\<lparr>tel := (tel pm)\<lparr>processExitChannelIsFull :=
                  processExitChannelIsFull (tel pm) + 1\<rparr>\<rparr>
      | None \<Rightarrow>
          pm\<lparr>tel := (tel pm)\<lparr>processExitChannelIsFull :=
                  processExitChannelIsFull (tel pm) + 1\<rparr>\<rparr>)"

text \<open>\<open>handleProcessExec\<close> and \<open>handleProcessExit\<close>: the loop over the callbacks.\<close>

definition handleProcessExec :: "pid \<Rightarrow> ProcessMonitor \<Rightarrow> ProcessMonitor" where
  "handleProcessExec p pm = foldl (sendExecTask p) pm (processExecCallbacks pm)"

definition handleProcessExit :: "pid \<Rightarrow> ProcessMonitor \<Rightarrow> ProcessMonitor" where
  "handleProcessExit p pm = foldl (sendExitTask p) pm (processExitCallbacks pm)"

text \<open>
  The two callbacks \<open>InitializeEventConsumer\<close> subscribes at the event consumer: what
  the monitor does when the event stream reports an exec or an exit of \<open>p\<close>.
\<close>

definition consumerExec :: "pid \<Rightarrow> ProcessMonitor \<Rightarrow> ProcessMonitor" where
  "consumerExec p pm =
     (let pm1 = pm\<lparr>tel := (tel pm)\<lparr>events := events (tel pm) + 1\<rparr>\<rparr>;
          pm2 = pm1\<lparr>tel := (tel pm1)\<lparr>exec := exec (tel pm1) + 1\<rparr>\<rparr>
      in if hasExecCallbacks pm2 then handleProcessExec p pm2 else pm2)"

definition consumerExit :: "pid \<Rightarrow> ProcessMonitor \<Rightarrow> ProcessMonitor" where
  "consumerExit p pm =
     (let pm1 = pm\<lparr>tel := (tel pm)\<lparr>events := events (tel pm) + 1\<rparr>\<rparr>;
          pm2 = pm1\<lparr>tel := (tel pm1)\<lparr>exit := exit (tel pm1) + 1\<rparr>\<rparr>
      in if hasExitCallbacks pm2 then handleProcessExit p pm2 else pm2)"

section \<open>Goroutines, panics and waiting\<close>

text \<open>
  A call either panics (with the message of the Go runtime), or has not returned after
  the steps the other goroutines were given, or returns.
\<close>

datatype 'a outcome = Panic string | Blocked | Returns 'a

fun bind_outcome :: "'a outcome \<Rightarrow> ('a \<Rightarrow> 'b outcome) \<Rightarrow> 'b outcome" where
  "bind_outcome (Panic e) f = Panic e"
| "bind_outcome Blocked f = Blocked"
| "bind_outcome (Returns x) f = f x"

text \<open>\<open>close(c)\<close>.\<close>

fun close_chan :: "signal_chan \<Rightarrow> signal_chan outcome" where
  "close_chan NilChan = Panic ''close of nil channel''"
| "close_chan ClosedChan = Panic ''close of closed channel''"
| "close_chan OpenChan = Returns ClosedChan"

text \<open>\<open>wg.Done()\<close> on a counter.\<close>

definition wg_done :: "int \<Rightarrow> int outcome" where
  "wg_done n = (if n - 1 < 0 then Panic ''sync: negative WaitGroup counter'' else Returns (n - 1))"

subsection \<open>The callback runners\<close>

text \<open>
  \<open>initCallbackRunner\<close>: a fresh task channel (empty, of capacity
  \<open>pendingCallbacksQueueSize\<close>), a fresh stop channel, \<open>callbackRunnersWG.Add(cpuNum)\<close>
  and \<open>cpuNum\<close> goroutines, each about to enter its loop. \<open>cpuNum\<close> is what
  \<open>kernel.PossibleCPUs\<close> (or \<open>runtime.NumVCPU\<close>) returned.
\<close>

definition initCallbackRunner :: "nat \<Rightarrow> ProcessMonitor \<Rightarrow> ProcessMonitor" where
  "initCallbackRunner cpuNum pm =
     pm\<lparr>callbackRunner := Some [],
        callbackRunnerStopChannel := OpenChan,
        callbackRunnersWG := callbackRunnersWG pm + int cpuNum,
        runners := runners pm @ replicate cpuNum AtStopCheck,
        effects := effects pm @ map GoCallbackRunner [0..<cpuNum]\<rparr>"

text \<open>A runner returns: its deferred \<open>pm.callbackRunnersWG.Done()\<close> runs.\<close>

definition runner_return :: "nat \<Rightarrow> ProcessMonitor \<Rightarrow> ProcessMonitor outcome" where
  "runner_return i pm =
     bind_outcome (wg_done (callbackRunnersWG pm))
       (\<lambda>n. Returns (pm\<lparr>callbackRunnersWG := n, runners := (runners pm)[i := Returned]\<rparr>))"

text \<open>
  One step of runner \<open>i\<close>. At the first \<open>select\<close> it returns when the stop channel is
  closed and goes on to the second otherwise. At the second \<open>select\<close> the stop case is
  ready when the stop channel is closed and the receive is ready when a task is
  buffered; when both are ready Go chooses one at random, which is the argument
  \<open>preferStop\<close>; when neither is ready the runner stays where it is. A received task
  is called in a step of its own: it counts \<open>callbackExecuted\<close> and calls the callback
  with the pid, unless the task is \<open>nil\<close>.
\<close>

definition callbackRunner_step :: "nat \<Rightarrow> bool \<Rightarrow> ProcessMonitor \<Rightarrow> ProcessMonitor outcome" where
  "callbackRunner_step i preferStop pm =
     (if length (runners pm) \<le> i then Returns pm
      else case runners pm ! i of
        AtStopCheck \<Rightarrow>
          if callbackRunnerStopChannel pm = ClosedChan then runner_return i pm
          else Returns (pm\<lparr>runners := (runners pm)[i := AtSelect]\<rparr>)
      | AtSelect \<Rightarrow>
          (case callbackRunner pm of
             Some (call # q) \<Rightarrow>
               if callbackRunnerStopChannel pm = ClosedChan \<and> preferStop
               then runner_return i pm
               else Returns (pm\<lparr>callbackRunner := Some q,
                                 runners := (runners pm)[i := Calling call]\<rparr>)
           | _ \<Rightarrow>
               if callbackRunnerStopChannel pm = ClosedChan then runner_return i pm
               else Returns pm)
      | Calling call \<Rightarrow>
          (case call of
             None \<Rightarrow> Returns (pm\<lparr>runners := (runners pm)[i := AtStopCheck]\<rparr>)
           | Some (callback, p) \<Rightarrow>
               Returns (pm\<lparr>tel := (tel pm)\<lparr>callbackExecuted := callbackExecuted (tel pm) + 1\<rparr>,
                           called := called pm @ [(callback, p)],
                           runners := (runners pm)[i := AtStopCheck]\<rparr>))
      | Returned \<Rightarrow> Returns pm)"

text \<open>\<open>close(pm.callbackRunnerStopChannel)\<close>, the first statement of \<open>stopCallbackRunners\<close>.\<close>

definition closeCallbackRunnerStopChannel :: "ProcessMonitor \<Rightarrow> ProcessMonitor outcome" where
  "closeCallbackRunnerStopChannel pm =
     bind_outcome (close_chan (callbackRunnerStopChannel pm))
       (\<lambda>c. Returns (pm\<lparr>callbackRunnerStopChannel := c\<rparr>))"

subsection \<open>The main event loop\<close>

text \<open>
  A message of \<open>netlinkEventsChannel\<close>: \<open>event.Msg\<close> is an \<open>*netlink.ExecProcEvent\<close> or
  an \<open>*netlink.ExitProcEvent\<close> with its \<open>ProcessPid\<close>, or of another type.
\<close>

datatype ProcEvent = ExecProcEvent pid | ExitProcEvent pid | OtherProcEvent

text \<open>
  The case the \<open>select\<close> of \<open>mainEventLoop\<close> takes, with what it receives. The events
  and errors channels are written by netlink, outside the monitor: a receive from
  them yields a value, or \<open>ok = false\<close> when the channel was closed. \<open>RecvError r\<close>
  carries what \<open>netlink.ProcEventMonitor\<close> will answer to the reinitialisation that
  follows (\<open>None\<close> for \<open>nil\<close>).
\<close>

datatype select_case =
    RecvDone
  | RecvEvent ProcEvent
  | RecvEventClosed
  | RecvError "string option"
  | RecvErrorClosed
  | RecvTick

text \<open>Go's \<open>error\<close> values \<open>Initialize\<close> and \<open>initNetlinkProcessEventMonitor\<close> build.\<close>

datatype error = CouldntInitialize string | ScanningFailed string

text \<open>
  \<open>initNetlinkProcessEventMonitor\<close>: fresh netlink channels and a call of
  \<open>netlink.ProcEventMonitor\<close>, whose answer is \<open>r\<close>.
\<close>

definition initNetlinkProcessEventMonitor ::
  "string option \<Rightarrow> ProcessMonitor \<Rightarrow> error option \<times> ProcessMonitor" where
  "initNetlinkProcessEventMonitor r pm =
     (map_option CouldntInitialize r,
      pm\<lparr>netlinkDoneChannel := OpenChan, effects := effects pm @ [ProcEventMonitor]\<rparr>)"

text \<open>
  The deferred function of \<open>mainEventLoop\<close>, up to the wait inside
  \<open>stopCallbackRunners\<close>: \<open>close(pm.netlinkDoneChannel)\<close> and the close of the
  runners' stop channel. The loop then waits for the runners.
\<close>

definition mainEventLoop_return :: "ProcessMonitor \<Rightarrow> ProcessMonitor outcome" where
  "mainEventLoop_return pm =
     bind_outcome (close_chan (netlinkDoneChannel pm))
       (\<lambda>c. bind_outcome (closeCallbackRunnerStopChannel (pm\<lparr>netlinkDoneChannel := c\<rparr>))
          (\<lambda>pm1. Returns (pm1\<lparr>mainLoop := LoopWaitRunners\<rparr>)))"

text \<open>The body of the events case, after the \<open>ok\<close> check; \<open>maxChannelSize\<close> only feeds a debug line.\<close>

definition handleEvent :: "ProcEvent \<Rightarrow> ProcessMonitor \<Rightarrow> ProcessMonitor" where
  "handleEvent ev pm =
     (let pm1 = pm\<lparr>tel := (tel pm)\<lparr>events := events (tel pm) + 1\<rparr>\<rparr>
      in case ev of
           ExecProcEvent p \<Rightarrow>
             (let pm2 = pm1\<lparr>tel := (tel pm1)\<lparr>exec := exec (tel pm1) + 1\<rparr>\<rparr>
              in if hasExecCallbacks pm2 then handleProcessExec p pm2 else pm2)
         | ExitProcEvent p \<Rightarrow>
             (let pm2 = pm1\<lparr>tel := (tel pm1)\<lparr>exit := exit (tel pm1) + 1\<rparr>\<rparr>
              in if hasExitCallbacks pm2 then handleProcessExit p pm2 else pm2)
         | OtherProcEvent \<Rightarrow> pm1)"

text \<open>
  The errors case: count the restart, send on \<open>netlinkDoneChannel\<close> (netlink's
  goroutine receives it), sleep 50 ms, reinitialise; when that fails, count it and
  return from the loop.
\<close>

definition handleError :: "string option \<Rightarrow> ProcessMonitor \<Rightarrow> ProcessMonitor outcome" where
  "handleError r pm =
     (let pm1 = pm\<lparr>tel := (tel pm)\<lparr>restart := restart (tel pm) + 1\<rparr>\<rparr>;
          pm2 = pm1\<lparr>effects := effects pm1 @ [SendNetlinkDone, Sleep 50]\<rparr>
      in case initNetlinkProcessEventMonitor r pm2 of
           (None, pm3) \<Rightarrow> Returns pm3
         | (Some err, pm3) \<Rightarrow>
             mainEventLoop_return
               (pm3\<lparr>tel := (tel pm3)\<lparr>reinitFailed := reinitFailed (tel pm3) + 1\<rparr>\<rparr>))"

text \<open>
  One step of the goroutine of \<open>mainEventLoop\<close>. At the \<open>select\<close> it takes the case
  given; \<open>RecvDone\<close> can only be taken once \<open>pm.done\<close> is closed. Waiting for the
  runners, it goes on when their wait group is at zero: \<open>pm.processMonitorWG.Done()\<close>,
  and the goroutine is over.
\<close>

definition mainEventLoop_step :: "select_case \<Rightarrow> ProcessMonitor \<Rightarrow> ProcessMonitor outcome" where
  "mainEventLoop_step c pm =
     (case mainLoop pm of
        LoopNotRunning \<Rightarrow> Returns pm
      | LoopWaitRunners \<Rightarrow>
          if callbackRunnersWG pm = 0
          then bind_outcome (wg_done (processMonitorWG pm))
                 (\<lambda>n. Returns (pm\<lparr>processMonitorWG := n, mainLoop := LoopNotRunning\<rparr>))
          else Returns pm
      | LoopSelect \<Rightarrow>
          (case c of
             RecvDone \<Rightarrow>
               if done_chan pm = ClosedChan
               then mainEventLoop_return (pm\<lparr>effects := effects pm @
                      [LogInfo ''process monitor main event loop is shutting down, having been marked to stop'']\<rparr>)
               else Returns pm
           | RecvEvent ev \<Rightarrow> Returns (handleEvent ev pm)
           | RecvEventClosed \<Rightarrow>
               mainEventLoop_return (pm\<lparr>effects := effects pm @
                 [LogInfo ''process monitor main event loop is shutting down, netlink events channel was closed'']\<rparr>)
           | RecvError r \<Rightarrow> handleError r pm
           | RecvErrorClosed \<Rightarrow>
               mainEventLoop_return (pm\<lparr>effects := effects pm @
                 [LogInfo ''process monitor main event loop is shutting down, netlink errors channel was closed'']\<rparr>)
           | RecvTick \<Rightarrow> Returns pm))"

subsection \<open>Schedules\<close>

text \<open>
  A step of the goroutines the monitor started: of runner \<open>i\<close>, or of the main event
  loop. A schedule is the list of the steps taken, in order.
\<close>

datatype step = RunnerStep nat bool | LoopStep select_case

fun take_step :: "step \<Rightarrow> ProcessMonitor \<Rightarrow> ProcessMonitor outcome" where
  "take_step (RunnerStep i preferStop) pm = callbackRunner_step i preferStop pm"
| "take_step (LoopStep c) pm = mainEventLoop_step c pm"

fun run :: "step list \<Rightarrow> ProcessMonitor \<Rightarrow> ProcessMonitor outcome" where
  "run [] pm = Returns pm"
| "run (st # sched) pm = bind_outcome (take_step st pm) (run sched)"

text \<open>
  \<open>wg.Wait()\<close> on the wait group whose counter is \<open>wg pm\<close>, while the goroutines
  take the steps of the schedule: the call returns as soon as the counter is zero,
  and has not returned when the schedule ends before that.
\<close>

fun wg_wait :: "(ProcessMonitor \<Rightarrow> int) \<Rightarrow> step list \<Rightarrow> ProcessMonitor \<Rightarrow> ProcessMonitor outcome" where
  "wg_wait wg [] pm = (if wg pm = 0 then Returns pm else Blocked)"
| "wg_wait wg (st # sched) pm =
     (if wg pm = 0 then Returns pm else bind_outcome (take_step st pm) (wg_wait wg sched))"

text \<open>\<open>stopCallbackRunners\<close>: close the stop channel, then \<open>pm.callbackRunnersWG.Wait()\<close>.\<close>

definition stopCallbackRunners :: "step list \<Rightarrow> ProcessMonitor \<Rightarrow> ProcessMonitor outcome" where
  "stopCallbackRunners sched pm =
     bind_outcome (closeCallbackRunnerStopChannel pm) (wg_wait callbackRunnersWG sched)"

section \<open>Initialize and Stop\<close>

text \<open>
  What \<open>Initialize\<close> gets from outside the monitor: the number of CPUs, the counters
  \<open>newProcessMonitorTelemetry\<close> returns, the answer of \<open>netlink.ProcEventMonitor\<close>, and
  from \<open>kernel.WithAllProcs\<close> the pids it passes to its callback, in order, and the
  error it returns (the callback \<open>handleProcessExecWrapper\<close> always returns \<open>nil\<close>).
\<close>

record init_env =
  cpuNum :: nat
  newProcessMonitorTelemetry :: processMonitorTelemetry
  procEventMonitorErr :: "string option"
  allProcs :: "int list"
  withAllProcsErr :: "string option"

text \<open>
  The function \<open>Initialize\<close> passes to \<open>initOnce.Do\<close>; the first component of the
  result is \<open>initErr\<close>. \<open>go pm.mainEventLoop()\<close> puts the loop at its \<open>select\<close>, and
  \<open>uint32(pid)\<close> keeps the low 32 bits of the pid.
\<close>

definition initialize_body :: "bool \<Rightarrow> init_env \<Rightarrow> ProcessMonitor \<Rightarrow> error option \<times> ProcessMonitor" where
  "initialize_body ues env pm =
     (let pm1 = pm\<lparr>effects := effects pm @
                   [LogInfo (if ues then ''initializing process monitor (event stream)''
                             else ''initializing process monitor (netlink)'')]\<rparr>;
          pm2 = pm1\<lparr>tel := newProcessMonitorTelemetry env, useEventStream := ues,
                    done_chan := OpenChan\<rparr>;
          pm3 = initCallbackRunner (cpuNum env) pm2
      in if ues then (None, pm3)
         else
           let pm4 = pm3\<lparr>processMonitorWG := processMonitorWG pm3 + 1,
                         netlinkDoneChannel := OpenChan,
                         mainLoop := LoopSelect,
                         effects := effects pm3 @
                           [GoMainEventLoop,
                            LogInfo ''process monitor main event loop is starting'',
                            ProcEventMonitor]\<rparr>;
               initErr = map_option CouldntInitialize (procEventMonitorErr env);
               execCallbacksLength = length (processExecCallbacks pm4)
           in if 0 < execCallbacksLength
              then
                let pm5 = pm4\<lparr>effects := effects pm4 @
                             [LogInfo ''process monitor init, scanning all processes'',
                              WithAllProcs]\<rparr>;
                    pm6 = foldl (\<lambda>m p. handleProcessExec (word_of_int p) m) pm5 (allProcs env)
                in case withAllProcsErr env of
                     Some err \<Rightarrow>
                       (Some (ScanningFailed err),
                        pm6\<lparr>tel := (tel pm6)\<lparr>processScanFailed :=
                                processScanFailed (tel pm6) + 1\<rparr>\<rparr>)
                   | None \<Rightarrow> (initErr, pm6)
              else (initErr, pm4))"

text \<open>
  \<open>Initialize\<close>: \<open>initOnce.Do\<close> runs the function unless it has run one before, and
  marks the \<open>Once\<close> as done whatever the function did; when it does not run,
  \<open>initErr\<close> is still \<open>nil\<close>.
\<close>

definition Initialize :: "bool \<Rightarrow> init_env \<Rightarrow> ProcessMonitor \<Rightarrow> error option \<times> ProcessMonitor" where
  "Initialize ues env pm =
     (if initOnce pm then (None, pm)
      else case initialize_body ues env pm of
             (initErr, pm1) \<Rightarrow> (initErr, pm1\<lparr>initOnce := True\<rparr>))"

text \<open>
  The end of \<open>Stop\<close>: new wait groups, a new \<open>Once\<close>, new empty callback maps.
\<close>

definition resetForTests :: "ProcessMonitor \<Rightarrow> ProcessMonitor" where
  "resetForTests pm =
     pm\<lparr>processMonitorWG := 0, callbackRunnersWG := 0, initOnce := False,
        processExecCallbacks := [], processExitCallbacks := []\<rparr>"

text \<open>
  \<open>Stop\<close>: \<open>refcount.Dec()\<close> wraps at 32 bits. While \<open>Stop\<close> waits (for the
  runners with the event stream, for the main event loop otherwise) the goroutines
  take the steps of the schedule.
\<close>

definition Stop :: "step list \<Rightarrow> ProcessMonitor \<Rightarrow> ProcessMonitor outcome" where
  "Stop sched pm =
     (let pm1 = pm\<lparr>refcount := refcount pm - 1\<rparr>
      in if refcount pm1 \<noteq> 0
         then Returns (if sint (refcount pm1) < 0 then pm1\<lparr>refcount := 0\<rparr> else pm1)
         else
           let pm2 = pm1\<lparr>effects := effects pm1 @
                        [LogInfo ''process monitor stopping due to a refcount of 0'']\<rparr>
           in if done_chan pm2 \<noteq> NilChan
              then
                bind_outcome (close_chan (done_chan pm2))
                  (\<lambda>c. bind_outcome
                     (if useEventStream pm2
                      then stopCallbackRunners sched (pm2\<lparr>done_chan := c\<rparr>)
                      else wg_wait processMonitorWG sched (pm2\<lparr>done_chan := c\<rparr>))
                     (\<lambda>pm3. Returns (resetForTests (pm3\<lparr>done_chan := NilChan\<rparr>))))
              else Returns (resetForTests pm2))"

section \<open>The tasks of the scan\<close>

text \<open>
  The tasks the scan of \<open>Initialize\<close> hands to \<open>handleProcessExec\<close>: for each pid that
  \<open>kernel.WithAllProcs\<close> visits, in order, one task per exec callback, in the order of
  the handler's loop.
\<close>

definition scanTasks :: "callback_addr list \<Rightarrow> int list \<Rightarrow> task list" where
  "scanTasks cbs pids = concat (map (\<lambda>p. map (\<lambda>cb. Some (cb, word_of_int p)) cbs) pids)"

section \<open>Counting the runners\<close>

text \<open>
  The runners that have not returned, and the property that the counter of
  \<open>callbackRunnersWG\<close> is their number: \<open>initCallbackRunner\<close> adds \<open>cpuNum\<close> for the
  \<open>cpuNum\<close> runners it starts, and each runner takes one off as it returns.
\<close>

definition liveRunners :: "runner list \<Rightarrow> nat" where
  "liveRunners rs = length (filter (\<lambda>r. r \<noteq> Returned) rs)"

definition runnersCounted :: "ProcessMonitor \<Rightarrow> bool" where
  "runnersCounted pm = (callbackRunnersWG pm = int (liveRunners (runners pm)))"

section \<open>Sequences of calls\<close>

text \<open>
  A caller acquires the monitor by \<open>GetProcessMonitor()\<close> followed by \<open>Initialize\<close>, and
  releases it by \<open>Stop()\<close>. \<open>acquires\<close> runs one acquisition per element of its list
  (the flag and the outside world of that \<open>Initialize\<close>), \<open>stops\<close> one \<open>Stop\<close> per
  schedule.
\<close>

fun acquires :: "(bool \<times> init_env) list \<Rightarrow> ProcessMonitor \<Rightarrow> ProcessMonitor" where
  "acquires [] pm = pm"
| "acquires ((ues, env) # as) pm = acquires as (snd (Initialize ues env (GetProcessMonitor pm)))"

fun stops :: "step list list \<Rightarrow> ProcessMonitor \<Rightarrow> ProcessMonitor outcome" where
  "stops [] pm = Returns pm"
| "stops (sched # ss) pm = bind_outcome (Stop sched pm) (stops ss)"

text \<open>
  Two monitors that agree on the refcount, the \<open>Once\<close>, the transport, \<open>done\<close> and the
  registry: what the goroutines never write.
\<close>

definition sameRegistration :: "ProcessMonitor \<Rightarrow> ProcessMonitor \<Rightarrow> bool" where
  "sameRegistration pm pm' =
     (refcount pm' = refcount pm \<and> initOnce pm' = initOnce pm
      \<and> useEventStream pm' = useEventStream pm \<and> done_chan pm' = done_chan pm
      \<and> hasExecCallbacks pm' = hasExecCallbacks pm
      \<and> processExecCallbacks pm' = processExecCallbacks pm
      \<and> hasExitCallbacks pm' = hasExitCallbacks pm
      \<and> processExitCallbacks pm' = processExitCallbacks pm)"

section \<open>The order of the calls\<close>







section \<open>Example states\<close>

text \<open>
  A monitor whose task channel has room for one more task, with two exec callbacks and
  two exit callbacks registered.
\<close>

definition nearlyFull :: ProcessMonitor where
  "nearlyFull = processMonitor\<lparr>callbackRunner := Some (replicate 4999 None),
     hasExecCallbacks := True, processExecCallbacks := [1, 2],
     hasExitCallbacks := True, processExitCallbacks := [3, 4]\<rparr>"

text \<open>
  Two CPUs and fresh counters; netlink and the scan of processes 1 and 7 succeed.
\<close>

definition plainEnv :: init_env where
  "plainEnv = \<lparr>cpuNum = 2, newProcessMonitorTelemetry = zeroTelemetry,
     procEventMonitorErr = None, allProcs = [1, 7], withAllProcsErr = None\<rparr>"

text \<open>The same, but \<open>netlink.ProcEventMonitor\<close> returns an error.\<close>

definition failingEnv :: init_env where
  "failingEnv = \<lparr>cpuNum = 2, newProcessMonitorTelemetry = zeroTelemetry,
     procEventMonitorErr = Some ''operation not permitted'', allProcs = [],
     withAllProcsErr = None\<rparr>"

text \<open>The monitor after \<open>GetProcessMonitor()\<close> and one \<open>SubscribeExec\<close>.\<close>

definition oneExecSubscriber :: ProcessMonitor where
  "oneExecSubscriber = fst (SubscribeExec 1 (GetProcessMonitor processMonitor))"

text \<open>That monitor after \<open>Initialize(false)\<close>: the main event loop is at its \<open>select\<close>.\<close>

definition runningNetlink :: ProcessMonitor where
  "runningNetlink = snd (Initialize False plainEnv oneExecSubscriber)"

text \<open>
  The monitor of \<open>oneExecSubscriber\<close> after \<open>Initialize(true)\<close> and two exec events of
  the event stream, for the pids 20 and 10: two runners, two tasks buffered. And the same
  once \<open>stopCallbackRunners\<close> has returned.
\<close>

definition withTasks :: ProcessMonitor where
  "withTasks = consumerExec 10 (consumerExec 20 (snd (Initialize True plainEnv oneExecSubscriber)))"

definition stoppedWithTasks :: ProcessMonitor where
  "stoppedWithTasks = withTasks\<lparr>callbackRunnerStopChannel := ClosedChan,
     callbackRunnersWG := 0, runners := [Returned, Returned]\<rparr>"

text \<open>
  The initial monitor acquired twice with the event stream, and what the second
  \<open>Stop\<close> leaves of it.
\<close>

definition twiceAcquired :: ProcessMonitor where
  "twiceAcquired = acquires [(True, plainEnv), (True, plainEnv)] processMonitor"

definition tornDown :: ProcessMonitor where
  "tornDown = processMonitor\<lparr>useEventStream := True,
     callbackRunnerStopChannel := ClosedChan, callbackRunner := Some [],
     runners := [Returned, Returned],
     effects := [LogInfo ''initializing process monitor (event stream)'',
        GoCallbackRunner 0, GoCallbackRunner 1,
        LogInfo ''process monitor stopping due to a refcount of 0'']\<rparr>"








text \<open>
  The monitor after \<open>GetProcessMonitor()\<close> and two \<open>SubscribeExec\<close>, for the callbacks 1
  and 2; and the initial monitor with the exec flag set and the line \<open>Stop\<close> logs.
\<close>

definition twoExecSubscribers :: ProcessMonitor where
  "twoExecSubscribers = fst (SubscribeExec 2 (fst (SubscribeExec 1 (GetProcessMonitor processMonitor))))"

definition staleFlag :: ProcessMonitor where
  "staleFlag = processMonitor\<lparr>hasExecCallbacks := True,
     effects := [LogInfo ''process monitor stopping due to a refcount of 0'']\<rparr>"

section \<open>The handlers never block\<close>

text \<open>
  The loop of a handler in closed form. With \<open>q\<close> buffered, the first
  \<open>pendingCallbacksQueueSize - length q\<close> callbacks get their task sent, in the order
  of the loop, and each of the others adds one to the channel-is-full counter.
\<close>


lemma foldl_sendExecTask:
  "callbackRunner pm = Some q \<Longrightarrow>
   foldl (sendExecTask p) pm cbs =
     pm\<lparr>callbackRunner :=
          Some (q @ take (pendingCallbacksQueueSize - length q) (map (\<lambda>cb. Some (cb, p)) cbs)),
        tel := (tel pm)\<lparr>processExecChannelIsFull :=
          processExecChannelIsFull (tel pm) +
            (length cbs - (pendingCallbacksQueueSize - length q))\<rparr>\<rparr>"
proof (induction cbs arbitrary: pm q)
  case Nil
  then show ?case by simp
next
  case (Cons cb cbs)
  show ?case
  proof (cases "length q < pendingCallbacksQueueSize")
    case True
    then obtain n where n: "pendingCallbacksQueueSize - length q = Suc n"
      by (metis Suc_diff_Suc)
    have s: "sendExecTask p pm cb = pm\<lparr>callbackRunner := Some (q @ [Some (cb, p)])\<rparr>"
      using Cons.prems True by (simp add: sendExecTask_def)
    have q': "callbackRunner (sendExecTask p pm cb) = Some (q @ [Some (cb, p)])"
      by (simp add: s)
    have n': "pendingCallbacksQueueSize - length (q @ [Some (cb, p)]) = n"
      using n by simp
    have d: "length (cb # cbs) - Suc n = length cbs - n"
      by simp
    show ?thesis
      unfolding foldl_Cons Cons.IH [OF q'] n n' d
      by (simp add: s)
  next
    case False
    have s: "sendExecTask p pm cb =
        pm\<lparr>tel := (tel pm)\<lparr>processExecChannelIsFull := processExecChannelIsFull (tel pm) + 1\<rparr>\<rparr>"
      using Cons.prems False by (simp add: sendExecTask_def)
    have "callbackRunner (sendExecTask p pm cb) = Some q"
      using Cons.prems by (simp add: s)
    from Cons.IH [OF this] False show ?thesis
      by (simp add: s)
  qed
qed

lemma foldl_sendExecTask_nil:
  "callbackRunner pm = None \<Longrightarrow>
   foldl (sendExecTask p) pm cbs =
     pm\<lparr>tel := (tel pm)\<lparr>processExecChannelIsFull :=
          processExecChannelIsFull (tel pm) + length cbs\<rparr>\<rparr>"
proof (induction cbs arbitrary: pm)
  case Nil
  then show ?case by simp
next
  case (Cons cb cbs)
  have s: "sendExecTask p pm cb =
      pm\<lparr>tel := (tel pm)\<lparr>processExecChannelIsFull := processExecChannelIsFull (tel pm) + 1\<rparr>\<rparr>"
    using Cons.prems by (simp add: sendExecTask_def)
  have "callbackRunner (sendExecTask p pm cb) = None"
    using Cons.prems by (simp add: s)
  from Cons.IH [OF this] show ?case
    by (simp add: s)
qed



lemma foldl_sendExitTask:
  "callbackRunner pm = Some q \<Longrightarrow>
   foldl (sendExitTask p) pm cbs =
     pm\<lparr>callbackRunner :=
          Some (q @ take (pendingCallbacksQueueSize - length q) (map (\<lambda>cb. Some (cb, p)) cbs)),
        tel := (tel pm)\<lparr>processExitChannelIsFull :=
          processExitChannelIsFull (tel pm) +
            (length cbs - (pendingCallbacksQueueSize - length q))\<rparr>\<rparr>"
proof (induction cbs arbitrary: pm q)
  case Nil
  then show ?case by simp
next
  case (Cons cb cbs)
  show ?case
  proof (cases "length q < pendingCallbacksQueueSize")
    case True
    then obtain n where n: "pendingCallbacksQueueSize - length q = Suc n"
      by (metis Suc_diff_Suc)
    have s: "sendExitTask p pm cb = pm\<lparr>callbackRunner := Some (q @ [Some (cb, p)])\<rparr>"
      using Cons.prems True by (simp add: sendExitTask_def)
    have q': "callbackRunner (sendExitTask p pm cb) = Some (q @ [Some (cb, p)])"
      by (simp add: s)
    have n': "pendingCallbacksQueueSize - length (q @ [Some (cb, p)]) = n"
      using n by simp
    have d: "length (cb # cbs) - Suc n = length cbs - n"
      by simp
    show ?thesis
      unfolding foldl_Cons Cons.IH [OF q'] n n' d
      by (simp add: s)
  next
    case False
    have s: "sendExitTask p pm cb =
        pm\<lparr>tel := (tel pm)\<lparr>processExitChannelIsFull := processExitChannelIsFull (tel pm) + 1\<rparr>\<rparr>"
      using Cons.prems False by (simp add: sendExitTask_def)
    have "callbackRunner (sendExitTask p pm cb) = Some q"
      using Cons.prems by (simp add: s)
    from Cons.IH [OF this] False show ?thesis
      by (simp add: s)
  qed
qed

lemma foldl_sendExitTask_nil:
  "callbackRunner pm = None \<Longrightarrow>
   foldl (sendExitTask p) pm cbs =
     pm\<lparr>tel := (tel pm)\<lparr>processExitChannelIsFull :=
          processExitChannelIsFull (tel pm) + length cbs\<rparr>\<rparr>"
proof (induction cbs arbitrary: pm)
  case Nil
  then show ?case by simp
next
  case (Cons cb cbs)
  have s: "sendExitTask p pm cb =
      pm\<lparr>tel := (tel pm)\<lparr>processExitChannelIsFull := processExitChannelIsFull (tel pm) + 1\<rparr>\<rparr>"
    using Cons.prems by (simp add: sendExitTask_def)
  have "callbackRunner (sendExitTask p pm cb) = None"
    using Cons.prems by (simp add: s)
  from Cons.IH [OF this] show ?case
    by (simp add: s)
qed


lemma handleProcessExec_closed:
  "callbackRunner pm = Some q \<Longrightarrow>
   handleProcessExec p pm =
     pm\<lparr>callbackRunner :=
          Some (q @ take (pendingCallbacksQueueSize - length q)
                      (map (\<lambda>cb. Some (cb, p)) (processExecCallbacks pm))),
        tel := (tel pm)\<lparr>processExecChannelIsFull :=
          processExecChannelIsFull (tel pm) +
            (length (processExecCallbacks pm) - (pendingCallbacksQueueSize - length q))\<rparr>\<rparr>"
  by (simp add: handleProcessExec_def foldl_sendExecTask)

text \<open>
  C4. Sending a task never blocks. For an event with pid \<open>p\<close> and each callback
  registered for its kind, the \<open>select\<close> sends the task \<open>(callback, p)\<close> when the channel
  \<open>callbackRunner\<close> has room, and otherwise drops it and adds exactly one to
  \<open>processExecChannelIsFull\<close> (for an exec) or \<open>processExitChannelIsFull\<close> (for an
  exit). Over the whole loop of \<open>handleProcessExec\<close> or \<open>handleProcessExit\<close> every callback
  is either sent or counted, nothing else of the monitor changes, and the handler returns
  the monitor: there is no error value and no waiting.
\<close>

theorem enqueue_or_drop:
  assumes "callbackRunner pm = Some q"
  shows "sendExecTask p pm cb =
           (if length q < pendingCallbacksQueueSize
            then pm\<lparr>callbackRunner := Some (q @ [Some (cb, p)])\<rparr>
            else pm\<lparr>tel := (tel pm)\<lparr>processExecChannelIsFull :=
                   processExecChannelIsFull (tel pm) + 1\<rparr>\<rparr>)
       \<and> sendExitTask p pm cb =
           (if length q < pendingCallbacksQueueSize
            then pm\<lparr>callbackRunner := Some (q @ [Some (cb, p)])\<rparr>
            else pm\<lparr>tel := (tel pm)\<lparr>processExitChannelIsFull :=
                   processExitChannelIsFull (tel pm) + 1\<rparr>\<rparr>)
       \<and> handleProcessExec p pm =
           pm\<lparr>callbackRunner :=
                Some (q @ take (pendingCallbacksQueueSize - length q)
                            (map (\<lambda>cb. Some (cb, p)) (processExecCallbacks pm))),
              tel := (tel pm)\<lparr>processExecChannelIsFull :=
                processExecChannelIsFull (tel pm) +
                  (length (processExecCallbacks pm) - (pendingCallbacksQueueSize - length q))\<rparr>\<rparr>
       \<and> handleProcessExit p pm =
           pm\<lparr>callbackRunner :=
                Some (q @ take (pendingCallbacksQueueSize - length q)
                            (map (\<lambda>cb. Some (cb, p)) (processExitCallbacks pm))),
              tel := (tel pm)\<lparr>processExitChannelIsFull :=
                processExitChannelIsFull (tel pm) +
                  (length (processExitCallbacks pm) - (pendingCallbacksQueueSize - length q))\<rparr>\<rparr>"
proof -
  have a: "sendExecTask p pm cb =
           (if length q < pendingCallbacksQueueSize
            then pm\<lparr>callbackRunner := Some (q @ [Some (cb, p)])\<rparr>
            else pm\<lparr>tel := (tel pm)\<lparr>processExecChannelIsFull :=
                   processExecChannelIsFull (tel pm) + 1\<rparr>\<rparr>)"
    using assms by (simp add: sendExecTask_def)
  have b: "sendExitTask p pm cb =
           (if length q < pendingCallbacksQueueSize
            then pm\<lparr>callbackRunner := Some (q @ [Some (cb, p)])\<rparr>
            else pm\<lparr>tel := (tel pm)\<lparr>processExitChannelIsFull :=
                   processExitChannelIsFull (tel pm) + 1\<rparr>\<rparr>)"
    using assms by (simp add: sendExitTask_def)
  note c = foldl_sendExecTask [OF assms, of p "processExecCallbacks pm", folded handleProcessExec_def]
  note d = foldl_sendExitTask [OF assms, of p "processExitCallbacks pm", folded handleProcessExit_def]
  from a b c d show ?thesis by blast
qed

text \<open>
  C4 at \<open>nearlyFull\<close>, where one task fits: the first callback's task is sent and the
  second is counted.
\<close>

theorem enqueue_or_drop_witness:
  "handleProcessExec 7 nearlyFull =
     nearlyFull\<lparr>callbackRunner := Some (replicate 4999 None @ [Some (1, 7)]),
       tel := zeroTelemetry\<lparr>processExecChannelIsFull := 1\<rparr>\<rparr>
   \<and> handleProcessExit 7 nearlyFull =
     nearlyFull\<lparr>callbackRunner := Some (replicate 4999 None @ [Some (3, 7)]),
       tel := zeroTelemetry\<lparr>processExitChannelIsFull := 1\<rparr>\<rparr>"
proof -
  have q: "callbackRunner nearlyFull = Some (replicate 4999 None)"
    by (simp add: nearlyFull_def)
  have e: "processExecCallbacks nearlyFull = [1, 2]" "processExitCallbacks nearlyFull = [3, 4]"
      "tel nearlyFull = zeroTelemetry"
    by (simp_all add: nearlyFull_def processMonitor_def)
  have z: "processExecChannelIsFull zeroTelemetry = 0" "processExitChannelIsFull zeroTelemetry = 0"
    by (simp_all add: zeroTelemetry_def)
  show ?thesis
    using enqueue_or_drop [OF q, of 7 0]
    by (simp add: e z pendingCallbacksQueueSize_def)
qed

section \<open>The registry and its flags\<close>

lemma map_delete_twice: "map_delete k (map_delete k m) = map_delete k m"
  by (simp add: map_delete_def)

lemma unsubscribeExec_idem: "unsubscribeExec cb (unsubscribeExec cb pm) = unsubscribeExec cb pm"
  by (simp add: unsubscribeExec_def Let_def map_delete_twice)

lemma unsubscribeExit_idem: "unsubscribeExit cb (unsubscribeExit cb pm) = unsubscribeExit cb pm"
  by (simp add: unsubscribeExit_def Let_def map_delete_twice)

lemma Stop_at_zero: "refcount pm = 0 \<Longrightarrow> Stop sched pm = Returns pm"
  by (simp add: Stop_def Let_def)

text \<open>
  An unsubscribe function called again changes nothing, as long as the flag of its map
  says whether the map is non-empty.
\<close>

lemma unsubscribeExec_again_in_sync:
  "callback \<notin> set (processExecCallbacks pm) \<Longrightarrow>
   hasExecCallbacks pm = (0 < length (processExecCallbacks pm)) \<Longrightarrow>
   unsubscribeExec callback pm = pm"
  by (simp add: unsubscribeExec_def map_delete_def Let_def)

lemma unsubscribeExit_again_in_sync:
  "callback \<notin> set (processExitCallbacks pm) \<Longrightarrow>
   hasExitCallbacks pm = (0 < length (processExitCallbacks pm)) \<Longrightarrow>
   unsubscribeExit callback pm = pm"
  by (simp add: unsubscribeExit_def map_delete_def Let_def)

text \<open>
  C6. A second call of an unsubscribe function is to leave the callback maps and the
  flags as they are. After \<open>GetProcessMonitor()\<close>, \<open>SubscribeExec\<close> for the callbacks 1
  and 2, the unsubscribe function of callback 1, and a \<open>Stop()\<close> that tears down, the
  exec map is empty and \<open>hasExecCallbacks\<close> is still set (what C1 is about); the
  unsubscribe function of callback 1, called a second time, then stores \<open>false\<close> in the
  flag. \<open>Stop\<close> at refcount zero is the no-op the claim says (\<open>Stop_at_zero\<close>).
\<close>

theorem unsubscribe_again_after_stop_clears_flag:
  "snd (SubscribeExec 1 (GetProcessMonitor processMonitor)) twoExecSubscribers =
     twoExecSubscribers\<lparr>processExecCallbacks := [2]\<rparr>
   \<and> Stop [] (twoExecSubscribers\<lparr>processExecCallbacks := [2]\<rparr>) = Returns staleFlag
   \<and> processExecCallbacks staleFlag = [] \<and> hasExecCallbacks staleFlag
   \<and> snd (SubscribeExec 1 (GetProcessMonitor processMonitor)) staleFlag =
       staleFlag\<lparr>hasExecCallbacks := False\<rparr>
   \<and> snd (SubscribeExec 1 (GetProcessMonitor processMonitor)) staleFlag \<noteq> staleFlag"
proof -
  have t: "twoExecSubscribers = processMonitor\<lparr>refcount := 1, hasExecCallbacks := True,
      processExecCallbacks := [1, 2]\<rparr>"
    by (simp add: twoExecSubscribers_def SubscribeExec_def GetProcessMonitor_def
        processMonitor_def map_store_def)
  have u: "snd (SubscribeExec 1 (GetProcessMonitor processMonitor)) = unsubscribeExec 1"
    by (simp add: SubscribeExec_def)
  have a: "unsubscribeExec 1 twoExecSubscribers = twoExecSubscribers\<lparr>processExecCallbacks := [2]\<rparr>"
    by (simp add: t unsubscribeExec_def map_delete_def Let_def processMonitor_def)
  have b: "Stop [] (twoExecSubscribers\<lparr>processExecCallbacks := [2]\<rparr>) = Returns staleFlag"
    by (simp add: t staleFlag_def Stop_def Let_def resetForTests_def processMonitor_def)
  have c: "unsubscribeExec 1 staleFlag = staleFlag\<lparr>hasExecCallbacks := False\<rparr>"
    by (simp add: staleFlag_def unsubscribeExec_def map_delete_def Let_def processMonitor_def)
  have d: "hasExecCallbacks (staleFlag\<lparr>hasExecCallbacks := False\<rparr>) \<noteq> hasExecCallbacks staleFlag"
    by (simp add: staleFlag_def)
  then have e: "staleFlag\<lparr>hasExecCallbacks := False\<rparr> \<noteq> staleFlag"
    by metis
  have f: "processExecCallbacks staleFlag = []" "hasExecCallbacks staleFlag"
    by (simp_all add: staleFlag_def processMonitor_def)
  from a b c e f show ?thesis
    unfolding u by simp
qed

text \<open>
  After \<open>SubscribeExec\<close>, \<open>SubscribeExit\<close> and the unsubscribe functions each flag says
  whether its map is non-empty.
\<close>

lemma subscribe_flag_in_sync:
  "hasExecCallbacks (fst (SubscribeExec cb pm)) = (0 < length (processExecCallbacks (fst (SubscribeExec cb pm))))"
  "hasExitCallbacks (fst (SubscribeExit cb pm)) = (0 < length (processExitCallbacks (fst (SubscribeExit cb pm))))"
  by (auto simp: SubscribeExec_def SubscribeExit_def map_store_def)

lemma unsubscribe_flag_in_sync:
  "hasExecCallbacks (unsubscribeExec cb pm) = (0 < length (processExecCallbacks (unsubscribeExec cb pm)))"
  "hasExitCallbacks (unsubscribeExit cb pm) = (0 < length (processExitCallbacks (unsubscribeExit cb pm)))"
  by (simp_all add: unsubscribeExec_def unsubscribeExit_def Let_def)

text \<open>
  C1. The flag \<open>hasExecCallbacks\<close> is to say whether the exec callback map is non-empty,
  also after a \<open>Stop\<close> that reaches refcount zero. It does not: after
  \<open>GetProcessMonitor()\<close>, one \<open>SubscribeExec\<close> and \<open>Stop()\<close>, the map is empty and the
  flag is still set, since \<open>Stop\<close> replaces the maps and leaves the flags.
\<close>

theorem stop_leaves_flag_set:
  "Stop [] (fst (SubscribeExec 1 (GetProcessMonitor processMonitor))) =
     Returns (processMonitor\<lparr>hasExecCallbacks := True,
       effects := [LogInfo ''process monitor stopping due to a refcount of 0'']\<rparr>)
   \<and> hasExecCallbacks (processMonitor\<lparr>hasExecCallbacks := True,
       effects := [LogInfo ''process monitor stopping due to a refcount of 0'']\<rparr>)
   \<and> processExecCallbacks (processMonitor\<lparr>hasExecCallbacks := True,
       effects := [LogInfo ''process monitor stopping due to a refcount of 0'']\<rparr>) = []"
  by (simp add: Stop_def SubscribeExec_def GetProcessMonitor_def processMonitor_def
      map_store_def resetForTests_def Let_def)

section \<open>Initialize\<close>

lemma scan_closed:
  "callbackRunner pm = Some q \<Longrightarrow>
   foldl (\<lambda>m p. handleProcessExec (word_of_int p) m) pm pids =
     pm\<lparr>callbackRunner :=
          Some (q @ take (pendingCallbacksQueueSize - length q)
                      (scanTasks (processExecCallbacks pm) pids)),
        tel := (tel pm)\<lparr>processExecChannelIsFull :=
          processExecChannelIsFull (tel pm) +
            (length (scanTasks (processExecCallbacks pm) pids)
               - (pendingCallbacksQueueSize - length q))\<rparr>\<rparr>"
proof (induction pids arbitrary: pm q)
  case Nil
  then show ?case by (simp add: scanTasks_def)
next
  case (Cons p pids)
  define t where "t = map (\<lambda>cb. Some (cb, word_of_int p :: pid)) (processExecCallbacks pm)"
  define n where "n = pendingCallbacksQueueSize - length q"
  define pm1 where "pm1 = handleProcessExec (word_of_int p) pm"
  have h: "pm1 = pm\<lparr>callbackRunner := Some (q @ take n t),
        tel := (tel pm)\<lparr>processExecChannelIsFull :=
          processExecChannelIsFull (tel pm) + (length t - n)\<rparr>\<rparr>"
    unfolding pm1_def t_def n_def
    using handleProcessExec_closed [OF Cons.prems, of "word_of_int p"] by simp
  have q1: "callbackRunner pm1 = Some (q @ take n t)"
    by (simp add: h)
  have c1: "processExecCallbacks pm1 = processExecCallbacks pm"
    by (simp add: h)
  have s: "scanTasks (processExecCallbacks pm) (p # pids) = t @ scanTasks (processExecCallbacks pm) pids"
    by (simp add: scanTasks_def t_def)
  have n1: "pendingCallbacksQueueSize - length (q @ take n t) = n - length t"
    unfolding n_def by (simp add: min_def)
  have a: "take n t @ take (n - length t) r = take n (t @ r)" for r :: "task list"
    by simp
  have b: "(length t - n) + (length r - (n - length t)) = length (t @ r) - n" for r :: "task list"
    by simp
  have "foldl (\<lambda>m p. handleProcessExec (word_of_int p) m) pm (p # pids)
      = foldl (\<lambda>m p. handleProcessExec (word_of_int p) m) pm1 pids"
    by (simp add: pm1_def)
  also have "\<dots> = pm1\<lparr>callbackRunner :=
          Some ((q @ take n t) @ take (n - length t) (scanTasks (processExecCallbacks pm) pids)),
        tel := (tel pm1)\<lparr>processExecChannelIsFull :=
          processExecChannelIsFull (tel pm1) +
            (length (scanTasks (processExecCallbacks pm) pids) - (n - length t))\<rparr>\<rparr>"
    using Cons.IH [OF q1] unfolding n1 c1 .
  also have "\<dots> = pm\<lparr>callbackRunner :=
          Some (q @ take n (t @ scanTasks (processExecCallbacks pm) pids)),
        tel := (tel pm)\<lparr>processExecChannelIsFull :=
          processExecChannelIsFull (tel pm) +
            (length (t @ scanTasks (processExecCallbacks pm) pids) - n)\<rparr>\<rparr>"
    unfolding a [symmetric] b [symmetric] by (simp add: h)
  finally show ?case
    unfolding s n_def .
qed
lemma Initialize_netlink_no_exec:
  "\<not> initOnce pm \<Longrightarrow> processExecCallbacks pm = [] \<Longrightarrow>
   Initialize False env pm =
     (map_option CouldntInitialize (procEventMonitorErr env),
      pm\<lparr>initOnce := True,
         tel := newProcessMonitorTelemetry env,
         useEventStream := False,
         done_chan := OpenChan,
         callbackRunner := Some [],
         callbackRunnerStopChannel := OpenChan,
         callbackRunnersWG := callbackRunnersWG pm + int (cpuNum env),
         runners := runners pm @ replicate (cpuNum env) AtStopCheck,
         processMonitorWG := processMonitorWG pm + 1,
         netlinkDoneChannel := OpenChan,
         mainLoop := LoopSelect,
         effects := effects pm @
           LogInfo ''initializing process monitor (netlink)'' #
           map GoCallbackRunner [0..<cpuNum env] @
           [GoMainEventLoop, LogInfo ''process monitor main event loop is starting'',
            ProcEventMonitor]\<rparr>)"
  by (simp add: Initialize_def initialize_body_def initCallbackRunner_def Let_def)

lemma Initialize_netlink_exec:
  assumes "\<not> initOnce pm" and "processExecCallbacks pm \<noteq> []"
  shows "Initialize False env pm =
     ((case withAllProcsErr env of
         Some err \<Rightarrow> Some (ScanningFailed err)
       | None \<Rightarrow> map_option CouldntInitialize (procEventMonitorErr env)),
      pm\<lparr>initOnce := True,
         tel := (newProcessMonitorTelemetry env)\<lparr>
           processExecChannelIsFull :=
             processExecChannelIsFull (newProcessMonitorTelemetry env) +
               (length (scanTasks (processExecCallbacks pm) (allProcs env))
                  - pendingCallbacksQueueSize),
           processScanFailed :=
             (case withAllProcsErr env of
                Some err \<Rightarrow> processScanFailed (newProcessMonitorTelemetry env) + 1
              | None \<Rightarrow> processScanFailed (newProcessMonitorTelemetry env))\<rparr>,
         useEventStream := False,
         done_chan := OpenChan,
         callbackRunner :=
           Some (take pendingCallbacksQueueSize
                   (scanTasks (processExecCallbacks pm) (allProcs env))),
         callbackRunnerStopChannel := OpenChan,
         callbackRunnersWG := callbackRunnersWG pm + int (cpuNum env),
         runners := runners pm @ replicate (cpuNum env) AtStopCheck,
         processMonitorWG := processMonitorWG pm + 1,
         netlinkDoneChannel := OpenChan,
         mainLoop := LoopSelect,
         effects := effects pm @
           LogInfo ''initializing process monitor (netlink)'' #
           map GoCallbackRunner [0..<cpuNum env] @
           [GoMainEventLoop, LogInfo ''process monitor main event loop is starting'',
            ProcEventMonitor,
            LogInfo ''process monitor init, scanning all processes'', WithAllProcs]\<rparr>)"
proof -
  define pm5 where "pm5 = pm\<lparr>
         tel := newProcessMonitorTelemetry env,
         useEventStream := False,
         done_chan := OpenChan,
         callbackRunner := Some [],
         callbackRunnerStopChannel := OpenChan,
         callbackRunnersWG := callbackRunnersWG pm + int (cpuNum env),
         runners := runners pm @ replicate (cpuNum env) AtStopCheck,
         processMonitorWG := processMonitorWG pm + 1,
         netlinkDoneChannel := OpenChan,
         mainLoop := LoopSelect,
         effects := effects pm @
           LogInfo ''initializing process monitor (netlink)'' #
           map GoCallbackRunner [0..<cpuNum env] @
           [GoMainEventLoop, LogInfo ''process monitor main event loop is starting'',
            ProcEventMonitor,
            LogInfo ''process monitor init, scanning all processes'', WithAllProcs]\<rparr>"
  have q: "callbackRunner pm5 = Some []"
    by (simp add: pm5_def)
  have b: "initialize_body False env pm =
     (case withAllProcsErr env of
        Some err \<Rightarrow>
          (Some (ScanningFailed err),
           (foldl (\<lambda>m p. handleProcessExec (word_of_int p) m) pm5 (allProcs env))\<lparr>tel :=
              (tel (foldl (\<lambda>m p. handleProcessExec (word_of_int p) m) pm5 (allProcs env)))\<lparr>
                processScanFailed := processScanFailed
                  (tel (foldl (\<lambda>m p. handleProcessExec (word_of_int p) m) pm5 (allProcs env))) + 1\<rparr>\<rparr>)
      | None \<Rightarrow>
          (map_option CouldntInitialize (procEventMonitorErr env),
           foldl (\<lambda>m p. handleProcessExec (word_of_int p) m) pm5 (allProcs env)))"
    using assms(2)
    by (simp add: initialize_body_def initCallbackRunner_def Let_def pm5_def split: option.split)
  show ?thesis
    using assms(1)
    by (simp add: Initialize_def b pm5_def scan_closed [OF q, unfolded pm5_def] split: option.split)
qed
lemma count_list_GoCallbackRunner [simp]:
  "count_list (map GoCallbackRunner is) WithAllProcs = 0"
  "count_list (map GoCallbackRunner is) ProcEventMonitor = 0"
  "count_list (map GoCallbackRunner is) GoMainEventLoop = 0"
  by (induction "is") simp_all

lemma Initialize_again: "initOnce pm \<Longrightarrow> Initialize ues env pm = (None, pm)"
  by (simp add: Initialize_def)

lemma Initialize_sets_initOnce: "initOnce (snd (Initialize ues env pm))"
  by (simp add: Initialize_def split: prod.split)

text \<open>
  C10. With the event stream, \<open>Initialize\<close> starts the callback runners and returns
  \<open>nil\<close>: the main event loop is not started, \<open>netlink.ProcEventMonitor\<close> is not called,
  and \<open>kernel.WithAllProcs\<close> is not called, whatever exec callbacks are registered; the
  task channel starts empty.
\<close>

theorem event_stream_starts_runners_only:
  "Initialize True env pm =
     (None,
      if initOnce pm then pm
      else pm\<lparr>initOnce := True,
              tel := newProcessMonitorTelemetry env,
              useEventStream := True,
              done_chan := OpenChan,
              callbackRunner := Some [],
              callbackRunnerStopChannel := OpenChan,
              callbackRunnersWG := callbackRunnersWG pm + int (cpuNum env),
              runners := runners pm @ replicate (cpuNum env) AtStopCheck,
              effects := effects pm @
                LogInfo ''initializing process monitor (event stream)'' #
                map GoCallbackRunner [0..<cpuNum env]\<rparr>)
   \<and> mainLoop (snd (Initialize True env pm)) = mainLoop pm
   \<and> netlinkDoneChannel (snd (Initialize True env pm)) = netlinkDoneChannel pm
   \<and> count_list (effects (snd (Initialize True env pm))) GoMainEventLoop =
       count_list (effects pm) GoMainEventLoop
   \<and> count_list (effects (snd (Initialize True env pm))) ProcEventMonitor =
       count_list (effects pm) ProcEventMonitor
   \<and> count_list (effects (snd (Initialize True env pm))) WithAllProcs =
       count_list (effects pm) WithAllProcs"
  by (simp add: Initialize_def initialize_body_def initCallbackRunner_def Let_def)

text \<open>
  C2, as the code has it. When the initialisation fails (netlink cannot be opened, or
  the scan fails), \<open>Initialize\<close> returns the error to that caller, and the \<open>Once\<close> is
  used up all the same: a later \<open>Initialize\<close>, with or without the event stream and
  whatever the outside would now answer, does not run the initialisation again and
  returns \<open>nil\<close>.
\<close>

theorem init_failure_consumes_once:
  assumes "\<not> initOnce pm"
    and "procEventMonitorErr env \<noteq> None
         \<or> (processExecCallbacks pm \<noteq> [] \<and> withAllProcsErr env \<noteq> None)"
  shows "fst (Initialize False env pm) =
           (if processExecCallbacks pm \<noteq> [] \<and> withAllProcsErr env \<noteq> None
            then map_option ScanningFailed (withAllProcsErr env)
            else map_option CouldntInitialize (procEventMonitorErr env))
       \<and> fst (Initialize False env pm) \<noteq> None
       \<and> initOnce (snd (Initialize False env pm))
       \<and> Initialize ues env' (snd (Initialize False env pm)) =
           (None, snd (Initialize False env pm))"
proof (cases "processExecCallbacks pm = []")
  case True
  with assms show ?thesis
    by (auto simp: Initialize_netlink_no_exec Initialize_again)
next
  case False
  with assms show ?thesis
    by (auto simp: Initialize_netlink_exec Initialize_again split: option.split)
qed

text \<open>C2, as the code has it, at the initial monitor when netlink cannot be opened.\<close>

theorem init_failure_consumes_once_witness:
  "fst (Initialize False failingEnv (GetProcessMonitor processMonitor)) =
      Some (CouldntInitialize ''operation not permitted'')
   \<and> initOnce (snd (Initialize False failingEnv (GetProcessMonitor processMonitor)))
   \<and> Initialize True plainEnv (snd (Initialize False failingEnv (GetProcessMonitor processMonitor))) =
       (None, snd (Initialize False failingEnv (GetProcessMonitor processMonitor)))"
proof -
  have a: "\<not> initOnce (GetProcessMonitor processMonitor)"
    by (simp add: GetProcessMonitor_def processMonitor_def)
  have b: "procEventMonitorErr failingEnv \<noteq> None
         \<or> (processExecCallbacks (GetProcessMonitor processMonitor) \<noteq> [] \<and> withAllProcsErr failingEnv \<noteq> None)"
    by (simp add: failingEnv_def)
  have c: "processExecCallbacks (GetProcessMonitor processMonitor) = []"
    by (simp add: GetProcessMonitor_def processMonitor_def)
  show ?thesis
    using init_failure_consumes_once [OF a b, of True plainEnv]
    by (simp add: c) (simp add: failingEnv_def)
qed

text \<open>
  C2 as stated fails: after a failed \<open>Initialize\<close>, a second \<open>Initialize\<close> for which
  netlink would open returns \<open>nil\<close> without running anything; \<open>netlink.ProcEventMonitor\<close>
  has been called once, by the first.
\<close>

theorem failed_init_is_not_retried:
  "fst (Initialize False failingEnv (GetProcessMonitor processMonitor)) =
      Some (CouldntInitialize ''operation not permitted'')
   \<and> Initialize False plainEnv (snd (Initialize False failingEnv (GetProcessMonitor processMonitor))) =
       (None, snd (Initialize False failingEnv (GetProcessMonitor processMonitor)))
   \<and> count_list (effects (snd (Initialize False plainEnv
        (snd (Initialize False failingEnv (GetProcessMonitor processMonitor)))))) ProcEventMonitor = 1"
proof -
  have a: "\<not> initOnce (GetProcessMonitor processMonitor)"
      "processExecCallbacks (GetProcessMonitor processMonitor) = []"
    by (simp_all add: GetProcessMonitor_def processMonitor_def)
  have b: "Initialize False plainEnv (snd (Initialize False failingEnv (GetProcessMonitor processMonitor))) =
       (None, snd (Initialize False failingEnv (GetProcessMonitor processMonitor)))"
    by (rule Initialize_again [OF Initialize_sets_initOnce])
  show ?thesis
    unfolding b
    by (simp add: Initialize_netlink_no_exec [OF a])
       (simp add: failingEnv_def GetProcessMonitor_def processMonitor_def)
qed

text \<open>
  C3, as the code has it. With netlink (\<open>useEventStream\<close> false), the initialisation
  calls \<open>kernel.WithAllProcs\<close> once when at least one exec callback is registered and
  not at all otherwise; when it does, every pid visited goes through
  \<open>handleProcessExec\<close>: the task channel holds the tasks of \<open>scanTasks\<close>, up to its
  capacity, and the tasks beyond it are counted in \<open>processExecChannelIsFull\<close>.
\<close>

theorem cold_start_scan_netlink:
  assumes "\<not> initOnce pm"
  shows "count_list (drop (length (effects pm)) (effects (snd (Initialize False env pm)))) WithAllProcs =
           (if processExecCallbacks pm = [] then 0 else 1)
       \<and> callbackRunner (snd (Initialize False env pm)) =
           Some (if processExecCallbacks pm = [] then []
                 else take pendingCallbacksQueueSize
                        (scanTasks (processExecCallbacks pm) (allProcs env)))
       \<and> processExecChannelIsFull (tel (snd (Initialize False env pm))) =
           processExecChannelIsFull (newProcessMonitorTelemetry env) +
             (if processExecCallbacks pm = [] then 0
              else length (scanTasks (processExecCallbacks pm) (allProcs env))
                     - pendingCallbacksQueueSize)"
proof (cases "processExecCallbacks pm = []")
  case True
  with assms show ?thesis
    by (simp add: Initialize_netlink_no_exec)
next
  case False
  with assms show ?thesis
    by (simp add: Initialize_netlink_exec)
qed

text \<open>C3, as the code has it, with one exec callback and the processes 1 and 7.\<close>

theorem cold_start_scan_netlink_witness:
  "count_list (drop (length (effects oneExecSubscriber))
       (effects (snd (Initialize False plainEnv oneExecSubscriber)))) WithAllProcs = 1
   \<and> callbackRunner (snd (Initialize False plainEnv oneExecSubscriber)) = Some [Some (1, 1), Some (1, 7)]
   \<and> processExecChannelIsFull (tel (snd (Initialize False plainEnv oneExecSubscriber))) = 0"
proof -
  have a: "\<not> initOnce oneExecSubscriber"
    by (simp add: oneExecSubscriber_def SubscribeExec_def GetProcessMonitor_def processMonitor_def)
  have b: "processExecCallbacks oneExecSubscriber = [1]"
    by (simp add: oneExecSubscriber_def SubscribeExec_def GetProcessMonitor_def processMonitor_def
        map_store_def)
  show ?thesis
    using cold_start_scan_netlink [OF a, of plainEnv]
    by (simp add: b) (simp add: plainEnv_def scanTasks_def pendingCallbacksQueueSize_def zeroTelemetry_def)
qed

text \<open>
  C3 as stated fails with the event stream: an exec callback is registered when
  \<open>Initialize\<close> runs, and \<open>kernel.WithAllProcs\<close> is not called.
\<close>

theorem no_cold_start_scan_with_event_stream:
  "processExecCallbacks oneExecSubscriber = [1]
   \<and> \<not> initOnce oneExecSubscriber
   \<and> count_list (effects (snd (Initialize True plainEnv oneExecSubscriber))) WithAllProcs = 0
   \<and> callbackRunner (snd (Initialize True plainEnv oneExecSubscriber)) = Some []"
  by (simp add: oneExecSubscriber_def SubscribeExec_def GetProcessMonitor_def processMonitor_def
      map_store_def Initialize_def initialize_body_def initCallbackRunner_def Let_def plainEnv_def)

section \<open>The main event loop\<close>

lemma closeCallbackRunnerStopChannel_Returns:
  "closeCallbackRunnerStopChannel pm = Returns pm' \<longleftrightarrow>
   callbackRunnerStopChannel pm = OpenChan \<and> pm' = pm\<lparr>callbackRunnerStopChannel := ClosedChan\<rparr>"
  by (cases "callbackRunnerStopChannel pm") (auto simp: closeCallbackRunnerStopChannel_def)

lemma mainEventLoop_return_Returns:
  "mainEventLoop_return pm = Returns pm' \<longleftrightarrow>
   netlinkDoneChannel pm = OpenChan \<and> callbackRunnerStopChannel pm = OpenChan \<and>
   pm' = pm\<lparr>netlinkDoneChannel := ClosedChan, callbackRunnerStopChannel := ClosedChan,
            mainLoop := LoopWaitRunners\<rparr>"
  by (cases "netlinkDoneChannel pm"; cases "callbackRunnerStopChannel pm")
     (auto simp: mainEventLoop_return_def closeCallbackRunnerStopChannel_def)

lemma handleError_ok:
  "handleError None pm =
     Returns (pm\<lparr>tel := (tel pm)\<lparr>restart := restart (tel pm) + 1\<rparr>,
                netlinkDoneChannel := OpenChan,
                effects := effects pm @ [SendNetlinkDone, Sleep 50, ProcEventMonitor]\<rparr>)"
  by (simp add: handleError_def initNetlinkProcessEventMonitor_def Let_def)

lemma handleError_failed:
  "callbackRunnerStopChannel pm = OpenChan \<Longrightarrow>
   handleError (Some e) pm =
     Returns (pm\<lparr>tel := (tel pm)\<lparr>restart := restart (tel pm) + 1,
                               reinitFailed := reinitFailed (tel pm) + 1\<rparr>,
                netlinkDoneChannel := ClosedChan,
                callbackRunnerStopChannel := ClosedChan,
                mainLoop := LoopWaitRunners,
                effects := effects pm @ [SendNetlinkDone, Sleep 50, ProcEventMonitor]\<rparr>)"
  by (simp add: handleError_def initNetlinkProcessEventMonitor_def Let_def
      mainEventLoop_return_Returns)

lemma mainEventLoop_step_waiting:
  "mainLoop pm = LoopWaitRunners \<Longrightarrow> mainEventLoop_step c pm = Returns pm' \<Longrightarrow>
   tel pm' = tel pm \<and> callbackRunner pm' = callbackRunner pm \<and> effects pm' = effects pm
   \<and> mainLoop pm' \<noteq> LoopSelect"
  by (auto simp: mainEventLoop_step_def wg_done_def split: if_splits)

text \<open>
  C8. On a netlink error the main event loop adds one to \<open>restart\<close>, sends on
  \<open>netlinkDoneChannel\<close>, sleeps 50 ms and calls \<open>netlink.ProcEventMonitor\<close> once, in
  that order. When that call succeeds the loop is at its \<open>select\<close> again and handles
  the next event. When it fails the loop adds one to \<open>reinitFailed\<close> and returns: its
  deferred function closes \<open>netlinkDoneChannel\<close> and the runners' stop channel and
  waits for the runners; from then on no case of the \<open>select\<close> is taken any more, and
  once the runners have returned the loop calls \<open>processMonitorWG.Done()\<close> and is over.
\<close>

theorem transport_error_restarts_once:
  assumes "mainLoop pm = LoopSelect" and "callbackRunnerStopChannel pm = OpenChan"
    and "ok = pm\<lparr>tel := (tel pm)\<lparr>restart := restart (tel pm) + 1\<rparr>,
                   netlinkDoneChannel := OpenChan,
                   effects := effects pm @ [SendNetlinkDone, Sleep 50, ProcEventMonitor]\<rparr>"
    and "failed = pm\<lparr>tel := (tel pm)\<lparr>restart := restart (tel pm) + 1,
                                      reinitFailed := reinitFailed (tel pm) + 1\<rparr>,
                       netlinkDoneChannel := ClosedChan,
                       callbackRunnerStopChannel := ClosedChan,
                       mainLoop := LoopWaitRunners,
                       effects := effects pm @ [SendNetlinkDone, Sleep 50, ProcEventMonitor]\<rparr>"
  shows "mainEventLoop_step (RecvError None) pm = Returns ok
       \<and> mainEventLoop_step (RecvEvent ev) ok = Returns (handleEvent ev ok)
       \<and> mainEventLoop_step (RecvError (Some e)) pm = Returns failed
       \<and> (\<forall>c pm'. mainEventLoop_step c failed = Returns pm' \<longrightarrow>
             tel pm' = tel failed \<and> callbackRunner pm' = callbackRunner failed
             \<and> effects pm' = effects failed \<and> mainLoop pm' \<noteq> LoopSelect)
       \<and> (callbackRunnersWG pm = 0 \<and> processMonitorWG pm = 1 \<longrightarrow>
             mainEventLoop_step c failed =
               Returns (failed\<lparr>processMonitorWG := 0, mainLoop := LoopNotRunning\<rparr>))"
proof -
  have a: "mainEventLoop_step (RecvError None) pm = Returns ok"
    using assms(1) by (simp add: mainEventLoop_step_def handleError_ok assms(3))
  have b: "mainEventLoop_step (RecvEvent ev) ok = Returns (handleEvent ev ok)"
    using assms(1) by (simp add: mainEventLoop_step_def assms(3))
  have c: "mainEventLoop_step (RecvError (Some e)) pm = Returns failed"
    using assms(1,2) by (simp add: mainEventLoop_step_def handleError_failed assms(4))
  have w: "mainLoop failed = LoopWaitRunners"
    by (simp add: assms(4))
  have d: "\<forall>c pm'. mainEventLoop_step c failed = Returns pm' \<longrightarrow>
             tel pm' = tel failed \<and> callbackRunner pm' = callbackRunner failed
             \<and> effects pm' = effects failed \<and> mainLoop pm' \<noteq> LoopSelect"
    using mainEventLoop_step_waiting [OF w] by blast
  have e: "callbackRunnersWG pm = 0 \<and> processMonitorWG pm = 1 \<longrightarrow>
             mainEventLoop_step c failed =
               Returns (failed\<lparr>processMonitorWG := 0, mainLoop := LoopNotRunning\<rparr>)"
    by (simp add: mainEventLoop_step_def assms(4) wg_done_def)
  from a b c d e show ?thesis by blast
qed

text \<open>C8 at \<open>runningNetlink\<close>, for a successful and for a failed reinitialisation.\<close>

theorem transport_error_restarts_once_witness:
  "mainEventLoop_step (RecvError None) runningNetlink =
     Returns (runningNetlink\<lparr>tel := zeroTelemetry\<lparr>restart := 1\<rparr>,
        netlinkDoneChannel := OpenChan,
        effects := effects runningNetlink @ [SendNetlinkDone, Sleep 50, ProcEventMonitor]\<rparr>)
   \<and> mainEventLoop_step (RecvError (Some ''no buffer space available'')) runningNetlink =
     Returns (runningNetlink\<lparr>tel := zeroTelemetry\<lparr>restart := 1, reinitFailed := 1\<rparr>,
        netlinkDoneChannel := ClosedChan,
        callbackRunnerStopChannel := ClosedChan,
        mainLoop := LoopWaitRunners,
        effects := effects runningNetlink @ [SendNetlinkDone, Sleep 50, ProcEventMonitor]\<rparr>)"
proof -
  have i: "\<not> initOnce oneExecSubscriber" "processExecCallbacks oneExecSubscriber \<noteq> []"
      "processExecCallbacks oneExecSubscriber = [1]"
    by (simp_all add: oneExecSubscriber_def SubscribeExec_def GetProcessMonitor_def
        processMonitor_def map_store_def)
  have r: "mainLoop runningNetlink = LoopSelect" "callbackRunnerStopChannel runningNetlink = OpenChan"
      "netlinkDoneChannel runningNetlink = OpenChan"
      "tel runningNetlink = zeroTelemetry"
    by (simp_all add: runningNetlink_def Initialize_netlink_exec [OF i(1,2)] i(3))
       (simp_all add: plainEnv_def scanTasks_def pendingCallbacksQueueSize_def zeroTelemetry_def)
  have z: "restart zeroTelemetry = 0" "reinitFailed zeroTelemetry = 0"
    by (simp_all add: zeroTelemetry_def)
  show ?thesis
    using transport_error_restarts_once [OF r(1,2) refl refl, of "ExecProcEvent 1" "''no buffer space available''" RecvTick]
    by (simp add: r z)
qed

text \<open>What the handlers and a step of the main event loop leave alone.\<close>

lemma handleProcessExec_shape:
  "\<exists>q n. handleProcessExec p pm =
     pm\<lparr>callbackRunner := q, tel := (tel pm)\<lparr>processExecChannelIsFull := n\<rparr>\<rparr>"
proof (cases "callbackRunner pm")
  case None
  show ?thesis
    unfolding handleProcessExec_def foldl_sendExecTask_nil [OF None]
    by (metis None ProcessMonitor.surjective ProcessMonitor.update_convs(13))
next
  case (Some q)
  show ?thesis
    unfolding handleProcessExec_def foldl_sendExecTask [OF Some] by blast
qed

lemma handleProcessExit_shape:
  "\<exists>q n. handleProcessExit p pm =
     pm\<lparr>callbackRunner := q, tel := (tel pm)\<lparr>processExitChannelIsFull := n\<rparr>\<rparr>"
proof (cases "callbackRunner pm")
  case None
  show ?thesis
    unfolding handleProcessExit_def foldl_sendExitTask_nil [OF None]
    by (metis None ProcessMonitor.surjective ProcessMonitor.update_convs(13))
next
  case (Some q)
  show ?thesis
    unfolding handleProcessExit_def foldl_sendExitTask [OF Some] by blast
qed

lemma handleEvent_shape:
  "\<exists>q t. handleEvent ev pm = pm\<lparr>callbackRunner := q, tel := t\<rparr>
     \<and> callbackExecuted t = callbackExecuted (tel pm)"
proof (cases ev)
  case (ExecProcEvent p)
  define pm2 where "pm2 = pm\<lparr>tel := (tel pm)\<lparr>events := events (tel pm) + 1, exec := exec (tel pm) + 1\<rparr>\<rparr>"
  obtain q n where h: "handleProcessExec p pm2 =
     pm2\<lparr>callbackRunner := q, tel := (tel pm2)\<lparr>processExecChannelIsFull := n\<rparr>\<rparr>"
    using handleProcessExec_shape by blast
  have e: "handleEvent ev pm = (if hasExecCallbacks pm then handleProcessExec p pm2 else pm2)"
    by (simp add: handleEvent_def ExecProcEvent pm2_def Let_def)
  show ?thesis
  proof (cases "hasExecCallbacks pm")
    case True
    have "handleEvent ev pm = pm\<lparr>callbackRunner := q,
        tel := (tel pm)\<lparr>events := events (tel pm) + 1, exec := exec (tel pm) + 1,
                         processExecChannelIsFull := n\<rparr>\<rparr>"
      by (simp add: e True h) (simp add: pm2_def)
    then show ?thesis by (intro exI conjI) (assumption, simp)
  next
    case False
    have "handleEvent ev pm = pm\<lparr>callbackRunner := callbackRunner pm,
        tel := (tel pm)\<lparr>events := events (tel pm) + 1, exec := exec (tel pm) + 1\<rparr>\<rparr>"
      by (simp add: e False pm2_def)
    then show ?thesis by (intro exI conjI) (assumption, simp)
  qed
next
  case (ExitProcEvent p)
  define pm2 where "pm2 = pm\<lparr>tel := (tel pm)\<lparr>events := events (tel pm) + 1, exit := exit (tel pm) + 1\<rparr>\<rparr>"
  obtain q n where h: "handleProcessExit p pm2 =
     pm2\<lparr>callbackRunner := q, tel := (tel pm2)\<lparr>processExitChannelIsFull := n\<rparr>\<rparr>"
    using handleProcessExit_shape by blast
  have e: "handleEvent ev pm = (if hasExitCallbacks pm then handleProcessExit p pm2 else pm2)"
    by (simp add: handleEvent_def ExitProcEvent pm2_def Let_def)
  show ?thesis
  proof (cases "hasExitCallbacks pm")
    case True
    have "handleEvent ev pm = pm\<lparr>callbackRunner := q,
        tel := (tel pm)\<lparr>events := events (tel pm) + 1, exit := exit (tel pm) + 1,
                         processExitChannelIsFull := n\<rparr>\<rparr>"
      by (simp add: e True h) (simp add: pm2_def)
    then show ?thesis by (intro exI conjI) (assumption, simp)
  next
    case False
    have "handleEvent ev pm = pm\<lparr>callbackRunner := callbackRunner pm,
        tel := (tel pm)\<lparr>events := events (tel pm) + 1, exit := exit (tel pm) + 1\<rparr>\<rparr>"
      by (simp add: e False pm2_def)
    then show ?thesis by (intro exI conjI) (assumption, simp)
  qed
next
  case OtherProcEvent
  have "handleEvent ev pm = pm\<lparr>callbackRunner := callbackRunner pm,
        tel := (tel pm)\<lparr>events := events (tel pm) + 1\<rparr>\<rparr>"
    by (simp add: handleEvent_def OtherProcEvent)
  then show ?thesis by (intro exI conjI) (assumption, simp)
qed
lemma mainEventLoop_step_keeps:
  assumes "mainEventLoop_step c pm = Returns pm'"
  shows "runners pm' = runners pm \<and> called pm' = called pm
       \<and> callbackRunnersWG pm' = callbackRunnersWG pm
       \<and> callbackExecuted (tel pm') = callbackExecuted (tel pm)"
proof (cases "mainLoop pm")
  case LoopNotRunning
  with assms show ?thesis by (simp add: mainEventLoop_step_def)
next
  case LoopWaitRunners
  with assms show ?thesis
    by (auto simp: mainEventLoop_step_def wg_done_def split: if_splits)
next
  case LoopSelect
  show ?thesis
  proof (cases c)
    case RecvDone
    with assms LoopSelect show ?thesis
      by (auto simp: mainEventLoop_step_def mainEventLoop_return_Returns split: if_splits)
  next
    case (RecvEvent ev)
    obtain q t where "handleEvent ev pm = pm\<lparr>callbackRunner := q, tel := t\<rparr>"
        "callbackExecuted t = callbackExecuted (tel pm)"
      using handleEvent_shape by blast
    with assms LoopSelect RecvEvent show ?thesis
      by (auto simp: mainEventLoop_step_def)
  next
    case RecvEventClosed
    with assms LoopSelect show ?thesis
      by (auto simp: mainEventLoop_step_def mainEventLoop_return_Returns)
  next
    case (RecvError r)
    with assms LoopSelect show ?thesis
      by (cases r)
         (auto simp: mainEventLoop_step_def handleError_def initNetlinkProcessEventMonitor_def
            Let_def mainEventLoop_return_Returns)
  next
    case RecvErrorClosed
    with assms LoopSelect show ?thesis
      by (auto simp: mainEventLoop_step_def mainEventLoop_return_Returns)
  next
    case RecvTick
    with assms LoopSelect show ?thesis
      by (simp add: mainEventLoop_step_def)
  qed
qed

section \<open>The callback runners\<close>

text \<open>
  The wait group of the runners counts the runners that have not returned, whatever the
  goroutines do.
\<close>

lemma liveRunners_update:
  "i < length rs \<Longrightarrow>
   liveRunners (rs[i := r]) + (if rs ! i \<noteq> Returned then 1 else 0) =
   liveRunners rs + (if r \<noteq> Returned then 1 else 0)"
proof (induction rs arbitrary: i)
  case Nil
  then show ?case by simp
next
  case (Cons a rs)
  show ?case
  proof (cases i)
    case 0
    then show ?thesis by (simp add: liveRunners_def)
  next
    case (Suc j)
    with Cons.prems have "j < length rs" by simp
    from Cons.IH [OF this] have
      "liveRunners (rs[j := r]) + (if rs ! j \<noteq> Returned then 1 else 0) =
       liveRunners rs + (if r \<noteq> Returned then 1 else 0)" .
    moreover have "liveRunners ((a # rs)[i := r]) =
        (if a \<noteq> Returned then 1 else 0) + liveRunners (rs[j := r])"
      by (simp add: Suc liveRunners_def)
    moreover have "liveRunners (a # rs) = (if a \<noteq> Returned then 1 else 0) + liveRunners rs"
      by (simp add: liveRunners_def)
    moreover have "(a # rs) ! i = rs ! j"
      by (simp add: Suc)
    ultimately show ?thesis by simp
  qed
qed

lemma liveRunners_zero: "liveRunners rs = 0 \<longleftrightarrow> (\<forall>r\<in>set rs. r = Returned)"
  by (auto simp: liveRunners_def filter_empty_conv)

lemma runner_return_counted:
  assumes "runnersCounted pm" and "i < length (runners pm)" and "runners pm ! i \<noteq> Returned"
    and "runner_return i pm = Returns pm'"
  shows "runnersCounted pm'"
proof -
  have u: "liveRunners ((runners pm)[i := Returned]) + 1 = liveRunners (runners pm)"
    using liveRunners_update [OF assms(2), of Returned] assms(3) by simp
  from assms(4) have "pm' = pm\<lparr>callbackRunnersWG := callbackRunnersWG pm - 1,
      runners := (runners pm)[i := Returned]\<rparr>"
    by (auto simp: runner_return_def wg_done_def split: if_splits)
  with assms(1) u show ?thesis
    by (simp add: runnersCounted_def)
qed


lemma callbackRunner_step_out_of_range:
  "length (runners pm) \<le> i \<Longrightarrow> callbackRunner_step i b pm = Returns pm"
  by (simp add: callbackRunner_step_def)

lemma callbackRunner_step_AtStopCheck:
  "i < length (runners pm) \<Longrightarrow> runners pm ! i = AtStopCheck \<Longrightarrow>
   callbackRunner_step i b pm =
     (if callbackRunnerStopChannel pm = ClosedChan then runner_return i pm
      else Returns (pm\<lparr>runners := (runners pm)[i := AtSelect]\<rparr>))"
  by (simp add: callbackRunner_step_def)

lemma callbackRunner_step_AtSelect_task:
  "i < length (runners pm) \<Longrightarrow> runners pm ! i = AtSelect \<Longrightarrow>
   callbackRunner pm = Some (call # q) \<Longrightarrow>
   callbackRunner_step i b pm =
     (if callbackRunnerStopChannel pm = ClosedChan \<and> b then runner_return i pm
      else Returns (pm\<lparr>callbackRunner := Some q,
                        runners := (runners pm)[i := Calling call]\<rparr>))"
  by (simp add: callbackRunner_step_def)

lemma callbackRunner_step_AtSelect_no_task:
  "i < length (runners pm) \<Longrightarrow> runners pm ! i = AtSelect \<Longrightarrow>
   callbackRunner pm = None \<or> callbackRunner pm = Some [] \<Longrightarrow>
   callbackRunner_step i b pm =
     (if callbackRunnerStopChannel pm = ClosedChan then runner_return i pm else Returns pm)"
  by (auto simp: callbackRunner_step_def)

lemma callbackRunner_step_Calling:
  "i < length (runners pm) \<Longrightarrow> runners pm ! i = Calling call \<Longrightarrow>
   callbackRunner_step i b pm =
     (case call of
        None \<Rightarrow> Returns (pm\<lparr>runners := (runners pm)[i := AtStopCheck]\<rparr>)
      | Some (callback, p) \<Rightarrow>
          Returns (pm\<lparr>tel := (tel pm)\<lparr>callbackExecuted := callbackExecuted (tel pm) + 1\<rparr>,
                      called := called pm @ [(callback, p)],
                      runners := (runners pm)[i := AtStopCheck]\<rparr>))"
  by (simp add: callbackRunner_step_def)

lemma callbackRunner_step_Returned:
  "i < length (runners pm) \<Longrightarrow> runners pm ! i = Returned \<Longrightarrow>
   callbackRunner_step i b pm = Returns pm"
  by (simp add: callbackRunner_step_def)


lemma callbackRunner_step_counted:
  assumes "runnersCounted pm" and "callbackRunner_step i b pm = Returns pm'"
  shows "runnersCounted pm'"
proof (cases "length (runners pm) \<le> i")
  case True
  with assms show ?thesis by (simp add: callbackRunner_step_out_of_range)
next
  case False
  then have i: "i < length (runners pm)" by simp
  have keep: "runnersCounted (pm\<lparr>runners := (runners pm)[i := r]\<rparr>)"
    if "runners pm ! i \<noteq> Returned" "r \<noteq> Returned" for r
    using liveRunners_update [OF i, of r] that assms(1) by (simp add: runnersCounted_def)
  have ret: "runnersCounted pm'"
    if "runner_return i pm = Returns pm'" "runners pm ! i \<noteq> Returned"
    using runner_return_counted [OF assms(1) i that(2) that(1)] .
  show ?thesis
  proof (cases "runners pm ! i")
    case AtStopCheck
    note st = assms(2) [unfolded callbackRunner_step_AtStopCheck [OF i AtStopCheck]]
    show ?thesis
    proof (cases "callbackRunnerStopChannel pm = ClosedChan")
      case True
      with st have "runner_return i pm = Returns pm'" by simp
      then show ?thesis using ret AtStopCheck by simp
    next
      case False
      with st have "pm' = pm\<lparr>runners := (runners pm)[i := AtSelect]\<rparr>" by simp
      with keep [of AtSelect] AtStopCheck show ?thesis by simp
    qed
  next
    case AtSelect
    show ?thesis
    proof (cases "callbackRunner pm = None \<or> callbackRunner pm = Some []")
      case True
      note st = assms(2) [unfolded callbackRunner_step_AtSelect_no_task [OF i AtSelect True]]
      show ?thesis
      proof (cases "callbackRunnerStopChannel pm = ClosedChan")
        case True
        with st have "runner_return i pm = Returns pm'" by simp
        then show ?thesis using ret AtSelect by simp
      next
        case False
        with st have "pm' = pm" by simp
        with assms(1) show ?thesis by simp
      qed
    next
      case False
      then obtain call q where q: "callbackRunner pm = Some (call # q)"
        by (cases "callbackRunner pm"; cases "the (callbackRunner pm)") auto
      note st = assms(2) [unfolded callbackRunner_step_AtSelect_task [OF i AtSelect q]]
      show ?thesis
      proof (cases "callbackRunnerStopChannel pm = ClosedChan \<and> b")
        case True
        with st have "runner_return i pm = Returns pm'" by simp
        then show ?thesis using ret AtSelect by simp
      next
        case False
        with st have p: "pm' = pm\<lparr>callbackRunner := Some q,
            runners := (runners pm)[i := Calling call]\<rparr>" by auto
        have "runnersCounted (pm\<lparr>runners := (runners pm)[i := Calling call]\<rparr>)"
          using keep [of "Calling call"] AtSelect by simp
        then show ?thesis by (simp add: p runnersCounted_def)
      qed
    qed
  next
    case (Calling call)
    note st = assms(2) [unfolded callbackRunner_step_Calling [OF i Calling]]
    have k: "runnersCounted (pm\<lparr>runners := (runners pm)[i := AtStopCheck]\<rparr>)"
      using keep [of AtStopCheck] Calling by simp
    show ?thesis
    proof (cases call)
      case None
      with st have "pm' = pm\<lparr>runners := (runners pm)[i := AtStopCheck]\<rparr>" by simp
      with k show ?thesis by simp
    next
      case (Some t)
      obtain cb p where t: "t = (cb, p)" by (cases t)
      with st Some have "pm' = pm\<lparr>tel := (tel pm)\<lparr>callbackExecuted := callbackExecuted (tel pm) + 1\<rparr>,
                      called := called pm @ [(cb, p)],
                      runners := (runners pm)[i := AtStopCheck]\<rparr>" by simp
      with k show ?thesis by (simp add: runnersCounted_def)
    qed
  next
    case Returned
    with assms i show ?thesis by (simp add: callbackRunner_step_Returned)
  qed
qed

lemma take_step_counted:
  assumes "runnersCounted pm" and "take_step st pm = Returns pm'"
  shows "runnersCounted pm'"
proof (cases st)
  case (RunnerStep i b)
  with assms callbackRunner_step_counted show ?thesis by simp
next
  case (LoopStep c)
  with assms mainEventLoop_step_keeps [of c pm pm'] show ?thesis
    by (simp add: runnersCounted_def)
qed

lemma bind_outcome_Returns:
  "bind_outcome x f = Returns y \<longleftrightarrow> (\<exists>z. x = Returns z \<and> f z = Returns y)"
  by (cases x) simp_all

lemma wg_wait_runners:
  "runnersCounted pm \<Longrightarrow> wg_wait callbackRunnersWG sched pm = Returns pm' \<Longrightarrow>
   runnersCounted pm' \<and> callbackRunnersWG pm' = 0"
proof (induction sched arbitrary: pm)
  case Nil
  then show ?case by (simp split: if_splits)
next
  case (Cons st sched)
  show ?case
  proof (cases "callbackRunnersWG pm = 0")
    case True
    with Cons.prems show ?thesis by simp
  next
    case False
    with Cons.prems(2) obtain pm1 where s: "take_step st pm = Returns pm1"
        and w: "wg_wait callbackRunnersWG sched pm1 = Returns pm'"
      by (auto simp: bind_outcome_Returns)
    from Cons.IH [OF take_step_counted [OF Cons.prems(1) s] w] show ?thesis .
  qed
qed

lemma take_step_all_returned:
  assumes "\<forall>r\<in>set (runners pm). r = Returned" and "take_step st pm = Returns pm'"
  shows "runners pm' = runners pm \<and> called pm' = called pm
       \<and> callbackExecuted (tel pm') = callbackExecuted (tel pm)"
proof (cases st)
  case (RunnerStep i b)
  have "callbackRunner_step i b pm = Returns pm"
  proof (cases "length (runners pm) \<le> i")
    case True
    then show ?thesis by (simp add: callbackRunner_step_def)
  next
    case False
    with assms(1) have "runners pm ! i = Returned" by simp
    with False show ?thesis by (simp add: callbackRunner_step_def)
  qed
  with assms(2) RunnerStep show ?thesis by simp
next
  case (LoopStep c)
  with assms(2) mainEventLoop_step_keeps [of c pm pm'] show ?thesis by simp
qed

lemma run_all_returned:
  "\<forall>r\<in>set (runners pm). r = Returned \<Longrightarrow> run sched pm = Returns pm' \<Longrightarrow>
   runners pm' = runners pm \<and> called pm' = called pm
   \<and> callbackExecuted (tel pm') = callbackExecuted (tel pm)"
proof (induction sched arbitrary: pm)
  case Nil
  then show ?case by simp
next
  case (Cons st sched)
  from Cons.prems(2) obtain pm1 where s: "take_step st pm = Returns pm1"
      and r: "run sched pm1 = Returns pm'"
    by (auto simp: bind_outcome_Returns)
  note k = take_step_all_returned [OF Cons.prems(1) s]
  with Cons.prems(1) have "\<forall>r\<in>set (runners pm1). r = Returned" by simp
  from Cons.IH [OF this r] k show ?case by simp
qed

text \<open>
  C7. Let \<open>stopCallbackRunners\<close> return: it has closed the stop channel and its wait for
  the runners' wait group is over. Then every runner has returned, and whatever steps
  the goroutines are given afterwards, no callback is called and \<open>callbackExecuted\<close> does
  not move: the tasks left in the channel are never called. The hypothesis is that the
  wait group counts the runners, as it does from \<open>initCallbackRunner\<close> on.
\<close>

theorem no_task_runs_after_stop:
  assumes "runnersCounted pm"
    and "stopCallbackRunners sched pm = Returns pm'"
    and "run later pm' = Returns pm''"
  shows "(\<forall>r\<in>set (runners pm'). r = Returned)
       \<and> runners pm'' = runners pm'
       \<and> called pm'' = called pm'
       \<and> callbackExecuted (tel pm'') = callbackExecuted (tel pm')"
proof -
  from assms(2) obtain pm1 where c: "closeCallbackRunnerStopChannel pm = Returns pm1"
      and w: "wg_wait callbackRunnersWG sched pm1 = Returns pm'"
    by (auto simp: stopCallbackRunners_def bind_outcome_Returns)
  from c have p: "pm1 = pm\<lparr>callbackRunnerStopChannel := ClosedChan\<rparr>"
    by (simp add: closeCallbackRunnerStopChannel_Returns)
  with assms(1) have "runnersCounted pm1"
    by (simp add: runnersCounted_def)
  from wg_wait_runners [OF this w] have a: "\<forall>r\<in>set (runners pm'). r = Returned"
    by (simp add: runnersCounted_def liveRunners_zero [symmetric])
  from a run_all_returned [OF a assms(3)] show ?thesis by simp
qed

text \<open>
  C7 at \<open>withTasks\<close>: both runners return at their first \<open>select\<close>, and the two tasks
  stay in the channel.
\<close>

lemmas eval_defs = withTasks_def stoppedWithTasks_def consumerExec_def Initialize_def initialize_body_def
  initCallbackRunner_def plainEnv_def oneExecSubscriber_def SubscribeExec_def GetProcessMonitor_def
  processMonitor_def map_store_def handleProcessExec_def sendExecTask_def pendingCallbacksQueueSize_def
  zeroTelemetry_def Let_def

lemma withTasks_eq:
  "withTasks = \<lparr>initOnce = True, processMonitorWG = 0, callbackRunnersWG = 2,
     refcount = 1, done_chan = OpenChan, netlinkDoneChannel = NilChan,
     useEventStream = True, hasExecCallbacks = True, processExecCallbacks = [1],
     hasExitCallbacks = False, processExitCallbacks = [],
     callbackRunnerStopChannel = OpenChan,
     callbackRunner = Some [Some (1, 20), Some (1, 10)],
     tel = \<lparr>events = 2, exec = 2, exit = 0, restart = 0, reinitFailed = 0,
          processScanFailed = 0, callbackExecuted = 0,
          processExecChannelIsFull = 0, processExitChannelIsFull = 0\<rparr>,
     runners = [AtStopCheck, AtStopCheck], mainLoop = LoopNotRunning, called = [],
     effects = [LogInfo ''initializing process monitor (event stream)'',
        GoCallbackRunner 0, GoCallbackRunner 1]\<rparr>"
  by (simp add: eval_defs upt_rec numeral_2_eq_2)

theorem no_task_runs_after_stop_witness:
  "stopCallbackRunners [RunnerStep 0 True, RunnerStep 1 True] withTasks = Returns stoppedWithTasks
   \<and> run [RunnerStep 0 False, RunnerStep 1 False, RunnerStep 0 False] stoppedWithTasks =
       Returns stoppedWithTasks
   \<and> called stoppedWithTasks = []
   \<and> callbackRunner stoppedWithTasks = Some [Some (1, 20), Some (1, 10)]"
proof -
  have a: "runnersCounted withTasks"
    by (simp add: withTasks_eq runnersCounted_def liveRunners_def)
  have b: "stopCallbackRunners [RunnerStep 0 True, RunnerStep 1 True] withTasks = Returns stoppedWithTasks"
    by (simp add: stoppedWithTasks_def withTasks_eq stopCallbackRunners_def
        closeCallbackRunnerStopChannel_def callbackRunner_step_def runner_return_def wg_done_def)
  have c: "run [RunnerStep 0 False, RunnerStep 1 False, RunnerStep 0 False] stoppedWithTasks =
       Returns stoppedWithTasks"
    by (simp add: stoppedWithTasks_def withTasks_eq callbackRunner_step_def)
  show ?thesis
    using no_task_runs_after_stop [OF a b c] b c
    by (simp add: stoppedWithTasks_def withTasks_eq)
qed

section \<open>What a step can do\<close>

text \<open>
  The steps of a runner and of the main event loop, case by case; none of them writes
  the refcount, the \<open>Once\<close>, the transport, \<open>done\<close> or the registry.
\<close>

lemma runner_return_Returns:
  "runner_return i pm = Returns pm' \<longleftrightarrow>
   0 < callbackRunnersWG pm \<and>
   pm' = pm\<lparr>callbackRunnersWG := callbackRunnersWG pm - 1,
            runners := (runners pm)[i := Returned]\<rparr>"
  by (auto simp: runner_return_def wg_done_def)

lemma callbackRunner_step_cases:
  assumes "callbackRunner_step i b pm = Returns pm'"
  obtains
    (same) "pm' = pm"
  | (return) "i < length (runners pm)" "runners pm ! i = AtStopCheck \<or> runners pm ! i = AtSelect"
      "callbackRunnerStopChannel pm = ClosedChan"
      "pm' = pm\<lparr>callbackRunnersWG := callbackRunnersWG pm - 1,
                runners := (runners pm)[i := Returned]\<rparr>"
  | (select) "i < length (runners pm)" "runners pm ! i = AtStopCheck"
      "pm' = pm\<lparr>runners := (runners pm)[i := AtSelect]\<rparr>"
  | (receive) call q where "i < length (runners pm)" "runners pm ! i = AtSelect"
      "callbackRunner pm = Some (call # q)"
      "pm' = pm\<lparr>callbackRunner := Some q, runners := (runners pm)[i := Calling call]\<rparr>"
  | (nil) "i < length (runners pm)" "runners pm ! i = Calling None"
      "pm' = pm\<lparr>runners := (runners pm)[i := AtStopCheck]\<rparr>"
  | (call) callback p where "i < length (runners pm)" "runners pm ! i = Calling (Some (callback, p))"
      "pm' = pm\<lparr>tel := (tel pm)\<lparr>callbackExecuted := callbackExecuted (tel pm) + 1\<rparr>,
                called := called pm @ [(callback, p)],
                runners := (runners pm)[i := AtStopCheck]\<rparr>"
proof (cases "length (runners pm) \<le> i")
  case True
  with assms same show ?thesis by (simp add: callbackRunner_step_out_of_range)
next
  case False
  then have i: "i < length (runners pm)" by simp
  show ?thesis
  proof (cases "runners pm ! i")
    case AtStopCheck
    note st = assms [unfolded callbackRunner_step_AtStopCheck [OF i AtStopCheck]]
    show ?thesis
    proof (cases "callbackRunnerStopChannel pm = ClosedChan")
      case True
      with st return [OF i _ True] AtStopCheck show ?thesis
        by (simp add: runner_return_Returns)
    next
      case False
      with st select [OF i AtStopCheck] show ?thesis by simp
    qed
  next
    case AtSelect
    show ?thesis
    proof (cases "callbackRunner pm = None \<or> callbackRunner pm = Some []")
      case True
      note st = assms [unfolded callbackRunner_step_AtSelect_no_task [OF i AtSelect True]]
      show ?thesis
      proof (cases "callbackRunnerStopChannel pm = ClosedChan")
        case True
        with st return [OF i _ True] AtSelect show ?thesis
          by (simp add: runner_return_Returns)
      next
        case False
        with st same show ?thesis by simp
      qed
    next
      case False
      then obtain call q where q: "callbackRunner pm = Some (call # q)"
        by (cases "callbackRunner pm"; cases "the (callbackRunner pm)") auto
      note st = assms [unfolded callbackRunner_step_AtSelect_task [OF i AtSelect q]]
      show ?thesis
      proof (cases "callbackRunnerStopChannel pm = ClosedChan \<and> b")
        case True
        with st return [OF i] AtSelect show ?thesis
          by (simp add: runner_return_Returns)
      next
        case False
        with st receive [OF i AtSelect q] show ?thesis by auto
      qed
    qed
  next
    case (Calling c)
    note st = assms [unfolded callbackRunner_step_Calling [OF i Calling]]
    show ?thesis
    proof (cases c)
      case None
      with st nil [OF i] Calling show ?thesis by simp
    next
      case (Some t)
      obtain cb p where t: "t = (cb, p)" by (cases t)
      with st Some call [OF i, of cb p] Calling show ?thesis by simp
    qed
  next
    case Returned
    with assms i same show ?thesis by (simp add: callbackRunner_step_Returned)
  qed
qed

lemma mainEventLoop_step_cases:
  assumes "mainEventLoop_step c pm = Returns pm'"
  obtains
    (same) "pm' = pm"
  | (over) "mainLoop pm = LoopWaitRunners" "callbackRunnersWG pm = 0"
      "pm' = pm\<lparr>processMonitorWG := processMonitorWG pm - 1, mainLoop := LoopNotRunning\<rparr>"
  | (event) ev where "mainLoop pm = LoopSelect" "c = RecvEvent ev" "pm' = handleEvent ev pm"
  | (restarted) "mainLoop pm = LoopSelect" "c = RecvError None"
      "pm' = pm\<lparr>tel := (tel pm)\<lparr>restart := restart (tel pm) + 1\<rparr>,
                netlinkDoneChannel := OpenChan,
                effects := effects pm @ [SendNetlinkDone, Sleep 50, ProcEventMonitor]\<rparr>"
  | (returning) t e where "mainLoop pm = LoopSelect" "callbackRunnerStopChannel pm = OpenChan"
      "callbackExecuted t = callbackExecuted (tel pm)"
      "pm' = pm\<lparr>tel := t, effects := e, netlinkDoneChannel := ClosedChan,
                callbackRunnerStopChannel := ClosedChan, mainLoop := LoopWaitRunners\<rparr>"
proof (cases "mainLoop pm")
  case LoopNotRunning
  with assms same show ?thesis by (simp add: mainEventLoop_step_def)
next
  case LoopWaitRunners
  show ?thesis
  proof (cases "callbackRunnersWG pm = 0")
    case True
    with assms LoopWaitRunners over show ?thesis
      by (auto simp: mainEventLoop_step_def wg_done_def split: if_splits)
  next
    case False
    with assms LoopWaitRunners same show ?thesis
      by (simp add: mainEventLoop_step_def)
  qed
next
  case LoopSelect
  have ret: ?thesis if "mainEventLoop_return (pm\<lparr>tel := t, effects := e\<rparr>) = Returns pm'"
      "callbackExecuted t = callbackExecuted (tel pm)" for t e
    using that returning [OF LoopSelect, where t = t and e = e]
    by (simp add: mainEventLoop_return_Returns)
  show ?thesis
  proof (cases c)
    case RecvDone
    show ?thesis
    proof (cases "done_chan pm = ClosedChan")
      case True
      with assms LoopSelect RecvDone
        ret [where t = "tel pm" and e = "effects pm @ [LogInfo ''process monitor main event loop is shutting down, having been marked to stop'']"]
      show ?thesis by (simp add: mainEventLoop_step_def)
    next
      case False
      with assms LoopSelect RecvDone same show ?thesis by (simp add: mainEventLoop_step_def)
    qed
  next
    case (RecvEvent ev)
    with assms LoopSelect event [of ev] show ?thesis by (simp add: mainEventLoop_step_def)
  next
    case RecvEventClosed
    with assms LoopSelect
      ret [where t = "tel pm" and e = "effects pm @ [LogInfo ''process monitor main event loop is shutting down, netlink events channel was closed'']"]
    show ?thesis by (simp add: mainEventLoop_step_def)
  next
    case (RecvError r)
    show ?thesis
    proof (cases r)
      case None
      with assms LoopSelect RecvError restarted show ?thesis
        by (simp add: mainEventLoop_step_def handleError_ok)
    next
      case (Some err)
      with assms LoopSelect RecvError have h: "handleError (Some err) pm = Returns pm'"
        by (simp add: mainEventLoop_step_def)
      then have o: "callbackRunnerStopChannel pm = OpenChan"
        by (simp add: handleError_def initNetlinkProcessEventMonitor_def Let_def
            mainEventLoop_return_Returns)
      from h have "pm' = pm\<lparr>tel := (tel pm)\<lparr>restart := restart (tel pm) + 1,
                               reinitFailed := reinitFailed (tel pm) + 1\<rparr>,
                effects := effects pm @ [SendNetlinkDone, Sleep 50, ProcEventMonitor],
                netlinkDoneChannel := ClosedChan,
                callbackRunnerStopChannel := ClosedChan,
                mainLoop := LoopWaitRunners\<rparr>"
        by (auto simp: handleError_failed [OF o])
      with returning [OF LoopSelect o, where e = "effects pm @ [SendNetlinkDone, Sleep 50, ProcEventMonitor]"
          and t = "(tel pm)\<lparr>restart := restart (tel pm) + 1, reinitFailed := reinitFailed (tel pm) + 1\<rparr>"]
      show ?thesis by simp
    qed
  next
    case RecvErrorClosed
    with assms LoopSelect
      ret [where t = "tel pm" and e = "effects pm @ [LogInfo ''process monitor main event loop is shutting down, netlink errors channel was closed'']"]
    show ?thesis by (simp add: mainEventLoop_step_def)
  next
    case RecvTick
    with assms LoopSelect same show ?thesis by (simp add: mainEventLoop_step_def)
  qed
qed
lemma sameRegistration_refl: "sameRegistration pm pm"
  by (simp add: sameRegistration_def)

lemma sameRegistration_trans:
  "sameRegistration pm pm1 \<Longrightarrow> sameRegistration pm1 pm2 \<Longrightarrow> sameRegistration pm pm2"
  by (simp add: sameRegistration_def)

lemma take_step_sameRegistration:
  assumes "take_step st pm = Returns pm'"
  shows "sameRegistration pm pm'"
proof (cases st)
  case (RunnerStep i b)
  with assms have "callbackRunner_step i b pm = Returns pm'" by simp
  then show ?thesis
    by (cases rule: callbackRunner_step_cases) (simp_all add: sameRegistration_def)
next
  case (LoopStep c)
  with assms have "mainEventLoop_step c pm = Returns pm'" by simp
  then show ?thesis
  proof (cases rule: mainEventLoop_step_cases)
    case (event ev)
    obtain q t where "handleEvent ev pm = pm\<lparr>callbackRunner := q, tel := t\<rparr>"
      using handleEvent_shape by blast
    with event show ?thesis by (simp add: sameRegistration_def)
  qed (simp_all add: sameRegistration_def)
qed

lemma wg_wait_sameRegistration:
  "wg_wait wg sched pm = Returns pm' \<Longrightarrow> sameRegistration pm pm'"
proof (induction sched arbitrary: pm)
  case Nil
  then show ?case by (simp add: sameRegistration_refl split: if_splits)
next
  case (Cons st sched)
  show ?case
  proof (cases "wg pm = 0")
    case True
    with Cons.prems show ?thesis by (simp add: sameRegistration_refl)
  next
    case False
    with Cons.prems obtain pm1 where s: "take_step st pm = Returns pm1"
        and w: "wg_wait wg sched pm1 = Returns pm'"
      by (auto simp: bind_outcome_Returns)
    from sameRegistration_trans [OF take_step_sameRegistration [OF s] Cons.IH [OF w]]
    show ?thesis .
  qed
qed

lemma stopCallbackRunners_sameRegistration:
  assumes "stopCallbackRunners sched pm = Returns pm'"
  shows "sameRegistration pm pm'"
proof -
  from assms obtain pm1 where c: "closeCallbackRunnerStopChannel pm = Returns pm1"
      and w: "wg_wait callbackRunnersWG sched pm1 = Returns pm'"
    by (auto simp: stopCallbackRunners_def bind_outcome_Returns)
  from c have "sameRegistration pm pm1"
    by (simp add: closeCallbackRunnerStopChannel_Returns sameRegistration_def)
  from sameRegistration_trans [OF this wg_wait_sameRegistration [OF w]] show ?thesis .
qed

section \<open>Acquiring and releasing\<close>

lemma word32_of_nat_neq_0: "0 < m \<Longrightarrow> m < 2 ^ 32 \<Longrightarrow> (of_nat m :: 32 word) \<noteq> 0"
  using of_nat_neq_0 [where 'a = 32, of m] by simp

lemma uint32_of_nat: "m < 2 ^ 31 \<Longrightarrow> uint (of_nat m :: 32 word) = int m"
  by (simp add: uint_nat unat_of_nat)

lemma sint32_of_nat: "m < 2 ^ 31 \<Longrightarrow> sint (of_nat m :: 32 word) = int m"
  by (simp add: sint_uint uint32_of_nat signed_take_bit_int_eq_self)

lemma Initialize_refcount:
  "refcount (snd (Initialize ues env pm)) = refcount pm"
proof (cases "initOnce pm")
  case True
  then show ?thesis by (simp add: Initialize_def)
next
  case False
  show ?thesis
  proof (cases ues)
    case True
    with False show ?thesis
      by (simp add: Initialize_def initialize_body_def initCallbackRunner_def Let_def)
  next
    case no_stream: False
    show ?thesis
    proof (cases "processExecCallbacks pm = []")
      case True
      with False no_stream show ?thesis by (simp add: Initialize_netlink_no_exec)
    next
      case exec: False
      with False no_stream show ?thesis by (simp add: Initialize_netlink_exec)
    qed
  qed
qed

lemma acquires_initialised:
  "initOnce pm \<Longrightarrow> acquires as pm = pm\<lparr>refcount := refcount pm + of_nat (length as)\<rparr>"
proof (induction as arbitrary: pm)
  case Nil
  then show ?case by simp
next
  case (Cons a as)
  obtain ues env where a: "a = (ues, env)" by (cases a)
  have i: "snd (Initialize ues env (GetProcessMonitor pm)) = pm\<lparr>refcount := refcount pm + 1\<rparr>"
    using Cons.prems by (simp add: Initialize_def GetProcessMonitor_def)
  have "initOnce (pm\<lparr>refcount := refcount pm + 1\<rparr>)"
    using Cons.prems by simp
  from Cons.IH [OF this] show ?case
    by (simp add: a i add.assoc)
qed

lemma acquires_Cons:
  "acquires ((ues, env) # as) pm =
     (snd (Initialize ues env (GetProcessMonitor pm)))\<lparr>refcount :=
        refcount pm + of_nat (Suc (length as))\<rparr>"
proof -
  have i: "initOnce (snd (Initialize ues env (GetProcessMonitor pm)))"
    by (simp add: Initialize_def split: prod.split)
  have r: "refcount (snd (Initialize ues env (GetProcessMonitor pm))) = refcount pm + 1"
    by (simp add: Initialize_refcount GetProcessMonitor_def)
  show ?thesis
    by (simp add: acquires_initialised [OF i] r add.assoc)
qed

lemma Stop_above_one:
  assumes "refcount pm = of_nat m" and "2 \<le> m" and "m \<le> 2 ^ 31"
  shows "Stop sched pm = Returns (pm\<lparr>refcount := of_nat (m - 1)\<rparr>)"
proof -
  have e: "refcount pm - 1 = of_nat (m - 1)"
    using assms(1,2) by (simp add: of_nat_diff)
  have z: "(of_nat (m - 1) :: 32 word) \<noteq> 0"
    using assms(2,3) by (intro word32_of_nat_neq_0) simp_all
  have s: "sint (of_nat (m - 1) :: 32 word) = int (m - 1)"
    using assms(2,3) by (intro sint32_of_nat) simp
  show ?thesis
    using z s by (simp add: Stop_def Let_def e)
qed

lemma stops_above:
  "refcount pm = of_nat m \<Longrightarrow> length ss < m \<Longrightarrow> m \<le> 2 ^ 31 \<Longrightarrow>
   stops ss pm = Returns (pm\<lparr>refcount := of_nat (m - length ss)\<rparr>)"
proof (induction ss arbitrary: pm m)
  case Nil
  then show ?case by simp
next
  case (Cons sched ss)
  then have m: "2 \<le> m" by simp
  have s: "Stop sched pm = Returns (pm\<lparr>refcount := of_nat (m - 1)\<rparr>)"
    by (rule Stop_above_one [OF Cons.prems(1) m Cons.prems(3)])
  have "stops ss (pm\<lparr>refcount := of_nat (m - 1)\<rparr>) =
      Returns (pm\<lparr>refcount := of_nat (m - 1)\<rparr>\<lparr>refcount := of_nat (m - 1 - length ss)\<rparr>)"
    using Cons.prems by (intro Cons.IH) simp_all
  then show ?case
    by (simp add: s)
qed

lemma stops_append: "stops (ss @ ts) pm = bind_outcome (stops ss pm) (stops ts)"
proof (induction ss arbitrary: pm)
  case Nil
  then show ?case by simp
next
  case (Cons sched ss)
  show ?case
    by (cases "Stop sched pm") (simp_all add: Cons.IH)
qed

lemma stops_at_zero: "refcount pm = 0 \<Longrightarrow> stops ss pm = Returns pm"
  by (induction ss) (simp_all add: Stop_at_zero)
text \<open>The last \<open>Stop\<close>: what the monitor is once it has returned.\<close>

lemma Stop_teardown:
  assumes "refcount pm = 1" and "Stop sched pm = Returns pm'"
  shows "refcount pm' = 0 \<and> \<not> initOnce pm' \<and> done_chan pm' = NilChan
       \<and> processExecCallbacks pm' = [] \<and> processExitCallbacks pm' = []
       \<and> processMonitorWG pm' = 0 \<and> callbackRunnersWG pm' = 0
       \<and> hasExecCallbacks pm' = hasExecCallbacks pm
       \<and> hasExitCallbacks pm' = hasExitCallbacks pm"
proof (cases "done_chan pm = NilChan")
  case True
  with assms show ?thesis
    by (auto simp: Stop_def Let_def resetForTests_def)
next
  case False
  define pm2 where "pm2 = pm\<lparr>refcount := 0, effects := effects pm @
      [LogInfo ''process monitor stopping due to a refcount of 0''], done_chan := ClosedChan\<rparr>"
  have o: "done_chan pm = OpenChan"
    using False assms by (cases "done_chan pm") (simp_all add: Stop_def Let_def)
  have "Stop sched pm =
      bind_outcome (if useEventStream pm then stopCallbackRunners sched pm2
                    else wg_wait processMonitorWG sched pm2)
        (\<lambda>pm3. Returns (resetForTests (pm3\<lparr>done_chan := NilChan\<rparr>)))"
    using o assms(1) by (simp add: Stop_def Let_def pm2_def)
  with assms(2) obtain pm3 where
      w: "(if useEventStream pm then stopCallbackRunners sched pm2
           else wg_wait processMonitorWG sched pm2) = Returns pm3"
      and p: "pm' = resetForTests (pm3\<lparr>done_chan := NilChan\<rparr>)"
    by (auto simp: bind_outcome_Returns)
  have "sameRegistration pm2 pm3"
    using w stopCallbackRunners_sameRegistration wg_wait_sameRegistration
    by (auto split: if_splits)
  then show ?thesis
    by (simp add: p resetForTests_def sameRegistration_def pm2_def)
qed
lemma bind_outcome_stops_Nil: "bind_outcome x (stops []) = x"
  by (cases x) simp_all

lemma replicate_plus1: "replicate (n + 1) x = x # replicate n x"
  by simp

lemma stops_wrapped:
  assumes "refcount pm = of_nat (2 ^ 31 + 1)"
  shows "stops (sched # ss) pm = Returns (pm\<lparr>refcount := 0\<rparr>)"
proof -
  have e: "refcount pm - 1 = 0x80000000"
    by (simp add: assms)
  have "Stop sched pm = Returns (pm\<lparr>refcount := 0\<rparr>)"
    by (simp add: Stop_def Let_def e)
  then show ?thesis
    by (simp add: stops_at_zero)
qed

text \<open>
  C5, as the code has it. Let the refcount be zero and let \<open>N\<close> callers acquire the
  monitor, \<open>1 \<le> N \<le> 2^31\<close> (the refcount is an \<open>atomic.Int32\<close>). Only the first
  \<open>Initialize\<close> runs the initialisation: the others change nothing, and the monitor is the
  one the first acquisition left, with refcount \<open>N\<close>. Fewer than \<open>N\<close> calls of \<open>Stop\<close> all
  return and only lower the refcount: no teardown. The \<open>N\<close>-th \<open>Stop\<close>, when it
  returns, has torn the monitor down: refcount zero, a new \<open>Once\<close>, \<open>done\<close> nil, empty
  callback maps, new wait groups.
\<close>

theorem teardown_at_last_release:
  assumes "refcount pm = 0"
    and "Suc (length others) \<le> 2 ^ 31"
    and "length ss < Suc (length others)"
  shows "acquires ((ues, env) # others) pm =
           (snd (Initialize ues env (GetProcessMonitor pm)))\<lparr>refcount := of_nat (Suc (length others))\<rparr>
       \<and> initOnce (acquires ((ues, env) # others) pm)
       \<and> stops ss (acquires ((ues, env) # others) pm) =
           Returns ((acquires ((ues, env) # others) pm)\<lparr>refcount :=
              of_nat (Suc (length others) - length ss)\<rparr>)
       \<and> (length ss = length others \<longrightarrow>
            (\<forall>pm'. stops (ss @ [sched]) (acquires ((ues, env) # others) pm) = Returns pm' \<longrightarrow>
               refcount pm' = 0 \<and> \<not> initOnce pm' \<and> done_chan pm' = NilChan
               \<and> processExecCallbacks pm' = [] \<and> processExitCallbacks pm' = []
               \<and> processMonitorWG pm' = 0 \<and> callbackRunnersWG pm' = 0))"
proof -
  define acq where "acq = acquires ((ues, env) # others) pm"
  have a: "acq = (snd (Initialize ues env (GetProcessMonitor pm)))\<lparr>refcount :=
      of_nat (Suc (length others))\<rparr>"
    unfolding acq_def acquires_Cons using assms(1) by simp
  have i: "initOnce acq"
    by (simp add: a Initialize_sets_initOnce)
  have r: "refcount acq = of_nat (Suc (length others))"
    by (simp add: a)
  have s: "stops ss acq = Returns (acq\<lparr>refcount := of_nat (Suc (length others) - length ss)\<rparr>)"
    by (rule stops_above [OF r assms(3) assms(2)])
  have t: "refcount pm' = 0 \<and> \<not> initOnce pm' \<and> done_chan pm' = NilChan
       \<and> processExecCallbacks pm' = [] \<and> processExitCallbacks pm' = []
       \<and> processMonitorWG pm' = 0 \<and> callbackRunnersWG pm' = 0"
    if l: "length ss = length others" and st: "stops (ss @ [sched]) acq = Returns pm'" for pm'
  proof -
    from st have "Stop sched (acq\<lparr>refcount := 1\<rparr>) = Returns pm'"
      by (simp add: stops_append s l bind_outcome_stops_Nil)
    from Stop_teardown [OF _ this] show ?thesis by simp
  qed
  from a i s t show ?thesis
    unfolding acq_def by blast
qed

text \<open>
  C5, as the code has it, for two acquisitions with the event stream: the first
  \<open>Stop\<close> only lowers the refcount, the second tears down.
\<close>

lemma twiceAcquired_eq:
  "twiceAcquired = processMonitor\<lparr>initOnce := True, callbackRunnersWG := 2, refcount := 2,
     done_chan := OpenChan, useEventStream := True, callbackRunnerStopChannel := OpenChan,
     callbackRunner := Some [], runners := [AtStopCheck, AtStopCheck],
     effects := [LogInfo ''initializing process monitor (event stream)'',
        GoCallbackRunner 0, GoCallbackRunner 1]\<rparr>"
  by (simp add: twiceAcquired_def Initialize_def initialize_body_def initCallbackRunner_def
      GetProcessMonitor_def processMonitor_def plainEnv_def Let_def upt_rec numeral_2_eq_2)

theorem teardown_at_last_release_witness:
  "initOnce twiceAcquired
   \<and> stops [[]] twiceAcquired = Returns (twiceAcquired\<lparr>refcount := 1\<rparr>)
   \<and> stops [[], [RunnerStep 0 True, RunnerStep 1 True]] twiceAcquired = Returns tornDown
   \<and> \<not> initOnce tornDown \<and> refcount tornDown = 0"
proof -
  have z: "refcount processMonitor = 0"
    by (simp add: processMonitor_def)
  have l: "Suc (length [(True, plainEnv)]) \<le> 2 ^ 31" "length [[] :: step list] < Suc (length [(True, plainEnv)])"
    by simp_all
  note t = teardown_at_last_release [OF z l, of True plainEnv "[RunnerStep 0 True, RunnerStep 1 True]",
      folded twiceAcquired_def]
  have s: "stops [[], [RunnerStep 0 True, RunnerStep 1 True]] twiceAcquired = Returns tornDown"
    by (simp add: twiceAcquired_eq tornDown_def Stop_def Let_def stopCallbackRunners_def
        closeCallbackRunnerStopChannel_def callbackRunner_step_def runner_return_def wg_done_def
        resetForTests_def processMonitor_def)
  from t s show ?thesis
    by simp
qed

text \<open>
  C5 as stated fails for \<open>N = 2^31 + 1\<close>: the refcount wraps to a negative number, the
  first \<open>Stop\<close> sets it to zero, and all \<open>N\<close> calls of \<open>Stop\<close> return without a
  teardown; the monitor is still initialised.
\<close>

theorem refcount_wraps_without_teardown:
  "stops (replicate (2 ^ 31 + 1) []) (acquires (replicate (2 ^ 31 + 1) (True, plainEnv)) processMonitor) =
     Returns ((snd (Initialize True plainEnv (GetProcessMonitor processMonitor)))\<lparr>refcount := 0\<rparr>)
   \<and> initOnce ((snd (Initialize True plainEnv (GetProcessMonitor processMonitor)))\<lparr>refcount := 0\<rparr>)"
proof -
  define acq where "acq = acquires (replicate (2 ^ 31 + 1) (True, plainEnv)) processMonitor"
  have z: "refcount processMonitor = 0"
    by (simp add: processMonitor_def)
  have a: "acq = (snd (Initialize True plainEnv (GetProcessMonitor processMonitor)))\<lparr>refcount :=
      of_nat (2 ^ 31 + 1)\<rparr>"
    unfolding acq_def replicate_plus1 acquires_Cons length_replicate z by simp
  have r: "refcount acq = of_nat (2 ^ 31 + 1)"
    unfolding a by simp
  have s: "stops (replicate (2 ^ 31 + 1) []) acq = Returns (acq\<lparr>refcount := 0\<rparr>)"
    unfolding replicate_plus1 by (rule stops_wrapped [OF r])
  have i: "initOnce ((snd (Initialize True plainEnv (GetProcessMonitor processMonitor)))\<lparr>refcount := 0\<rparr>)"
    by (simp add: Initialize_sets_initOnce)
  have "acq\<lparr>refcount := 0\<rparr> =
      (snd (Initialize True plainEnv (GetProcessMonitor processMonitor)))\<lparr>refcount := 0\<rparr>"
    unfolding a by simp
  with s i show ?thesis
    unfolding acq_def by simp
qed

section \<open>The order in which callbacks are called\<close>














end
